theory Spec2Isabelle
  imports Complex_Main "HOL-Library.Log_Nat"
begin

section \<open>Python values\<close>

text \<open>
  The data migration \<^verbatim>\<open>convert_gps_strings_to_floats\<close> of
  \<^verbatim>\<open>django_migration_fix.py\<close> reads every \<^verbatim>\<open>GPSPath\<close> row, replaces a textual
  latitude or longitude by \<^verbatim>\<open>float(...)\<close> of it, and saves the row; a row on which
  \<^verbatim>\<open>float\<close> raises is reported on standard output and not saved.

  The exceptions of the model. \<^verbatim>\<open>float\<close> applied to a \<^verbatim>\<open>str\<close> raises only
  \<^verbatim>\<open>ValueError\<close>; \<^verbatim>\<open>save()\<close> raises \<^verbatim>\<open>IntegrityError\<close> when the
  database refuses the row. The handler of the migration catches \<^verbatim>\<open>ValueError\<close>
  and \<^verbatim>\<open>TypeError\<close>; an \<^verbatim>\<open>IntegrityError\<close> leaves the function.
\<close>

datatype error = ValueError | TypeError | IntegrityError

text \<open>
  A Python \<^verbatim>\<open>float\<close> is an IEEE 754 binary64 number: a finite value (kept as the
  rational it denotes; the two zeros are identified), an infinity, or a NaN.
\<close>

datatype pyfloat = Finite rat | PosInf | NegInf | NaN

text \<open>
  A coordinate field holds text or a number (the column was a \<^verbatim>\<open>CharField\<close> and
  becomes a \<^verbatim>\<open>FloatField\<close>).
\<close>

datatype pyval = PyStr string | PyFloat pyfloat

subsection \<open>Rounding a positive fraction to binary64\<close>

text \<open>
  \<open>round_binary64 neg a b\<close> is the binary64 number nearest to \<open>a / b\<close> (for
  \<open>0 \<le> a\<close>, \<open>0 < b\<close>), ties to even, with the sign \<open>neg\<close>: 53 bits of
  precision, least exponent \<open>-1022\<close> (below it the numbers are subnormal), and
  an infinity from \<open>2 ^ 1024\<close> on.
\<close>

text \<open>
  \<open>scale2 a b k\<close> is the fraction \<open>a / b\<close> times \<open>2 ^ k\<close>, as a pair;
  \<open>binary_exponent a b\<close> is the integer \<open>e\<close> with \<open>2 ^ e \<le> a / b < 2 ^ (e + 1)\<close>
  (\<open>bitlen\<close> is the number of bits of a positive integer); \<open>round_half_even a b\<close>
  is the integer nearest to \<open>a / b\<close>, a tie going to the even one.
\<close>

definition scale2 :: "int \<Rightarrow> int \<Rightarrow> int \<Rightarrow> int \<times> int" where
  "scale2 a b k = (if 0 \<le> k then (a * 2 ^ nat k, b) else (a, b * 2 ^ nat (- k)))"

definition binary_exponent :: "int \<Rightarrow> int \<Rightarrow> int" where
  "binary_exponent a b =
     (let d = bitlen a - bitlen b;
          (a', b') = scale2 a b (- d)
      in if b' \<le> a' then d else d - 1)"

definition round_half_even :: "int \<Rightarrow> int \<Rightarrow> int" where
  "round_half_even a b =
     (let q = a div b; r = a mod b
      in if 2 * r < b then q
         else if b < 2 * r then q + 1
         else if even q then q else q + 1)"

definition round_binary64 :: "bool \<Rightarrow> int \<Rightarrow> int \<Rightarrow> pyfloat" where
  "round_binary64 neg a b =
     (if a = 0 then Finite 0
      else
        let e = max (binary_exponent a b) (- 1022);
            (a', b') = scale2 a b (52 - e);
            m = round_half_even a' b';
            (n, d) = scale2 m 1 (e - 52)
        in if 2 ^ 1024 * d \<le> n then (if neg then NegInf else PosInf)
           else Finite (Fract (if neg then - n else n) d))"

subsection \<open>The builtin \<^verbatim>\<open>float\<close> on a string\<close>

text \<open>
  CPython's \<^verbatim>\<open>float(s)\<close> for an ASCII string \<open>s\<close>: underscores are allowed between
  digits only and are removed; white space is stripped at both ends; then the whole
  rest must be a sign followed by either a decimal number (digits, at most one point,
  at least one digit, an optional exponent) or one of \<^verbatim>\<open>inf\<close>, \<^verbatim>\<open>infinity\<close>,
  \<^verbatim>\<open>nan\<close> in any case. Anything else raises \<^verbatim>\<open>ValueError\<close>. Strings are byte
  strings here: the non-ASCII digits and spaces that Python also accepts are outside
  the model.
\<close>

definition is_space :: "char \<Rightarrow> bool" where
  "is_space c \<longleftrightarrow> c \<in> set [CHR 0x20, CHR 0x09, CHR 0x0A, CHR 0x0B, CHR 0x0C, CHR 0x0D]"

definition is_digit :: "char \<Rightarrow> bool" where
  "is_digit c \<longleftrightarrow> c \<in> set ''0123456789''"

definition digit_val :: "char \<Rightarrow> int" where
  "digit_val c = of_char c - 48"

definition digits_value :: "string \<Rightarrow> int" where
  "digits_value ds = foldl (\<lambda>n c. 10 * n + digit_val c) 0 ds"

definition to_lower :: "char \<Rightarrow> char" where
  "to_lower c = (let n = of_char c :: nat in if 65 \<le> n \<and> n \<le> 90 then char_of (n + 32) else c)"

definition strip :: "string \<Rightarrow> string" where
  "strip s = rev (dropWhile is_space (rev (dropWhile is_space s)))"

fun check_underscores :: "char \<Rightarrow> string \<Rightarrow> string option" where
  "check_underscores prev [] = (if prev = CHR ''_'' then None else Some [])"
| "check_underscores prev (c # cs) =
     (if c = CHR ''_'' then (if is_digit prev then check_underscores c cs else None)
      else if prev = CHR ''_'' \<and> \<not> is_digit c then None
      else map_option ((#) c) (check_underscores c cs))"

definition parse_sign :: "string \<Rightarrow> bool \<times> string" where
  "parse_sign s =
     (case s of
        [] \<Rightarrow> (False, [])
      | c # cs \<Rightarrow> if c = CHR ''-'' then (True, cs) else if c = CHR ''+'' then (False, cs) else (False, s))"

definition parse_exponent :: "string \<Rightarrow> int \<times> string" where
  "parse_exponent s =
     (case s of
        [] \<Rightarrow> (0, [])
      | c # cs \<Rightarrow>
          if c = CHR ''e'' \<or> c = CHR ''E'' then
            (let (neg, r) = parse_sign cs; ds = takeWhile is_digit r
             in if ds = [] then (0, s)
                else (if neg then - digits_value ds else digits_value ds,
                      dropWhile is_digit r))
          else (0, s))"

definition parse_decimal :: "string \<Rightarrow> (int \<times> int) option" where
  "parse_decimal s =
     (let ip = takeWhile is_digit s; r1 = dropWhile is_digit s;
          (fp, r2) = (case r1 of
                        [] \<Rightarrow> ([], [])
                      | c # cs \<Rightarrow> if c = CHR ''.'' then (takeWhile is_digit cs, dropWhile is_digit cs)
                                  else ([], r1))
      in if ip = [] \<and> fp = [] then None
         else let (ex, r3) = parse_exponent r2
              in if r3 = [] then Some (digits_value (ip @ fp), ex - int (length fp)) else None)"

definition parse_inf_or_nan :: "bool \<Rightarrow> string \<Rightarrow> pyfloat option" where
  "parse_inf_or_nan neg s =
     (let t = map to_lower s
      in if t = ''inf'' \<or> t = ''infinity'' then Some (if neg then NegInf else PosInf)
         else if t = ''nan'' then Some NaN
         else None)"

definition round_decimal :: "bool \<Rightarrow> int \<Rightarrow> int \<Rightarrow> pyfloat" where
  "round_decimal neg m e =
     (if 0 \<le> e then round_binary64 neg (m * 10 ^ nat e) 1
      else round_binary64 neg m (10 ^ nat (- e)))"

definition float_from_string_inner :: "string \<Rightarrow> error + pyfloat" where
  "float_from_string_inner s =
     (let (neg, u) = parse_sign (strip s)
      in case parse_decimal u of
           Some (m, e) \<Rightarrow> Inr (round_decimal neg m e)
         | None \<Rightarrow> (case parse_inf_or_nan neg u of
                      Some x \<Rightarrow> Inr x
                    | None \<Rightarrow> Inl ValueError))"

definition py_float :: "string \<Rightarrow> error + pyfloat" where
  "py_float s =
     (case check_underscores (CHR 0x00) s of
        None \<Rightarrow> Inl ValueError
      | Some t \<Rightarrow> float_from_string_inner t)"

section \<open>The table and the migration\<close>

text \<open>
  A row of \<^verbatim>\<open>GPSPath\<close> (\<^verbatim>\<open>django_models_fix.py\<close>): the primary key \<^verbatim>\<open>id\<close>
  (named \<open>point_id\<close> here), the foreign key \<^verbatim>\<open>scan\<close>, the two coordinates,
  \<^verbatim>\<open>accuracy\<close> and \<^verbatim>\<open>timestamp\<close> (\<^verbatim>\<open>auto_now_add\<close>: set on insertion only).
\<close>

record gpspath =
  point_id :: int
  scan :: int
  latitude :: pyval
  longitude :: pyval
  accuracy :: pyfloat
  timestamp :: int

text \<open>
  The effects of the migration: the table, the lines printed, and the objects that
  \<^verbatim>\<open>save()\<close> has stored, in call order.
\<close>

record world =
  table :: "gpspath list"
  stdout :: "string list"
  save_calls :: "gpspath list"

text \<open>
  A run either returns, in a final state, or an exception leaves it, in the state
  reached by then. What the caller does after an exception (Django rolls an atomic
  migration back) is outside the function.
\<close>

type_synonym outcome = "(error \<times> world) + world"

definition final_world :: "outcome \<Rightarrow> world" where
  "final_world r = (case r of Inl (e, w) \<Rightarrow> w | Inr w \<Rightarrow> w)"

text \<open>
  \<^verbatim>\<open>save()\<close> of an object with a primary key updates the row of that key, and
  inserts the object when no row has it.
\<close>

fun save_row :: "gpspath \<Rightarrow> gpspath list \<Rightarrow> gpspath list" where
  "save_row p [] = [p]"
| "save_row p (r # rs) = (if point_id r = point_id p then p # rs else r # save_row p rs)"

definition store :: "gpspath \<Rightarrow> world \<Rightarrow> world" where
  "store p w = w\<lparr>table := save_row p (table w), save_calls := save_calls w @ [p]\<rparr>"

text \<open>
  \<^verbatim>\<open>save()\<close> can fail. A \<^verbatim>\<open>FloatField\<close> prepares its value with \<^verbatim>\<open>float\<close>
  (which raises on text that does not parse), and the two coordinate columns are
  \<^verbatim>\<open>NOT NULL\<close>: on SQLite, Django's default database, a NaN is bound as
  \<^verbatim>\<open>NULL\<close> and the write raises \<^verbatim>\<open>IntegrityError\<close>. A failed \<^verbatim>\<open>save()\<close>
  leaves the state as it was. The other columns are written back as they were read.
\<close>

definition get_prep_value :: "pyval \<Rightarrow> error + pyfloat" where
  "get_prep_value v = (case v of PyStr s \<Rightarrow> py_float s | PyFloat x \<Rightarrow> Inr x)"

definition save :: "gpspath \<Rightarrow> world \<Rightarrow> error + world" where
  "save p w =
     (case get_prep_value (latitude p) of
        Inl e \<Rightarrow> Inl e
      | Inr x \<Rightarrow>
          (case get_prep_value (longitude p) of
             Inl e \<Rightarrow> Inl e
           | Inr y \<Rightarrow>
               if x = NaN \<or> y = NaN then Inl IntegrityError
               else Inr (store (p\<lparr>latitude := PyFloat x, longitude := PyFloat y\<rparr>) w)))"

definition print :: "string \<Rightarrow> world \<Rightarrow> world" where
  "print l w = w\<lparr>stdout := stdout w @ [l]\<rparr>"

text \<open>The decimal rendering of an integer, as an f-string formats it.\<close>

function str_digits :: "int \<Rightarrow> string" where
  "str_digits n =
     (if n < 10 then [char_of (48 + n)]
      else str_digits (n div 10) @ [char_of (48 + n mod 10)])"
  by pat_completeness auto
termination
  by (relation "measure nat") auto

declare str_digits.simps [simp del]

definition str_int :: "int \<Rightarrow> string" where
  "str_int i = (if i < 0 then CHR ''-'' # str_digits (- i) else str_digits i)"

definition warning_line :: "int \<Rightarrow> string" where
  "warning_line i = ''Warning: Could not convert GPS coordinates for point '' @ str_int i"

text \<open>
  The two guarded assignments of the \<^verbatim>\<open>try\<close> block, to the object in memory. An
  exception of the first leaves the second undone, and the object built so far is
  dropped.
\<close>

definition convert_latitude :: "gpspath \<Rightarrow> error + gpspath" where
  "convert_latitude p =
     (case latitude p of
        PyStr s \<Rightarrow> (case py_float s of Inl e \<Rightarrow> Inl e | Inr x \<Rightarrow> Inr (p\<lparr>latitude := PyFloat x\<rparr>))
      | PyFloat x \<Rightarrow> Inr p)"

definition convert_longitude :: "gpspath \<Rightarrow> error + gpspath" where
  "convert_longitude p =
     (case longitude p of
        PyStr s \<Rightarrow> (case py_float s of Inl e \<Rightarrow> Inl e | Inr y \<Rightarrow> Inr (p\<lparr>longitude := PyFloat y\<rparr>))
      | PyFloat y \<Rightarrow> Inr p)"

definition convert_fields :: "gpspath \<Rightarrow> error + gpspath" where
  "convert_fields p =
     (case convert_latitude p of
        Inl e \<Rightarrow> Inl e
      | Inr p1 \<Rightarrow> convert_longitude p1)"

text \<open>The whole \<^verbatim>\<open>try\<close> block: the assignments, then \<^verbatim>\<open>save()\<close>.\<close>

definition try_block :: "gpspath \<Rightarrow> world \<Rightarrow> error + world" where
  "try_block p w =
     (case convert_fields p of
        Inl e \<Rightarrow> Inl e
      | Inr p' \<Rightarrow> save p' w)"

text \<open>
  One iteration of the loop, with its handler: \<^verbatim>\<open>ValueError\<close> and
  \<^verbatim>\<open>TypeError\<close> are caught and reported, any other exception leaves the loop.
\<close>

definition loop_body :: "gpspath \<Rightarrow> world \<Rightarrow> outcome" where
  "loop_body p w =
     (case try_block p w of
        Inr w' \<Rightarrow> Inr w'
      | Inl e \<Rightarrow>
          if e = ValueError \<or> e = TypeError then Inr (print (warning_line (point_id p)) w)
          else Inl (e, w))"

fun for_each :: "gpspath list \<Rightarrow> world \<Rightarrow> outcome" where
  "for_each [] w = Inr w"
| "for_each (p # ps) w =
     (case loop_body p w of
        Inl ew \<Rightarrow> Inl ew
      | Inr w' \<Rightarrow> for_each ps w')"

text \<open>
  The migration runs the loop over the rows that \<^verbatim>\<open>GPSPath.objects.all()\<close> returns,
  on the table it read them from.
\<close>

definition convert_gps_strings_to_floats :: "gpspath list \<Rightarrow> outcome" where
  "convert_gps_strings_to_floats tbl = for_each tbl \<lparr>table = tbl, stdout = [], save_calls = []\<rparr>"

text \<open>The reverse operation of the migration is \<^verbatim>\<open>pass\<close>.\<close>

definition reverse_conversion :: "gpspath list \<Rightarrow> outcome" where
  "reverse_conversion tbl = Inr \<lparr>table = tbl, stdout = [], save_calls = []\<rparr>"

subsection \<open>What a run does to one row\<close>

text \<open>
  \<open>raises p\<close>: one of the two \<^verbatim>\<open>float\<close> calls raises on the row \<open>p\<close>.
  \<open>converted p\<close>: the object that \<^verbatim>\<open>save()\<close> receives when none does.
  \<open>has_nan p\<close>: a coordinate of \<open>p\<close> is a NaN or text that parses to a NaN.
\<close>

definition raises :: "gpspath \<Rightarrow> bool" where
  "raises p = (case convert_fields p of Inl e \<Rightarrow> True | Inr p' \<Rightarrow> False)"

definition converted :: "gpspath \<Rightarrow> gpspath" where
  "converted p = (case convert_fields p of Inl e \<Rightarrow> p | Inr p' \<Rightarrow> p')"

definition is_float :: "pyval \<Rightarrow> bool" where
  "is_float v = (case v of PyStr s \<Rightarrow> False | PyFloat x \<Rightarrow> True)"

definition is_nan :: "pyval \<Rightarrow> bool" where
  "is_nan v = (case v of PyStr s \<Rightarrow> py_float s = Inr NaN | PyFloat x \<Rightarrow> x = NaN)"

definition has_nan :: "gpspath \<Rightarrow> bool" where
  "has_nan p = (is_nan (latitude p) \<or> is_nan (longitude p))"

text \<open>
  The model of \<^verbatim>\<open>float\<close> is for ASCII text: the properties below are stated for
  rows whose textual coordinates are ASCII.
\<close>

definition is_ascii :: "string \<Rightarrow> bool" where
  "is_ascii s = list_all (\<lambda>c. (of_char c :: int) < 128) s"

definition ascii_text :: "pyval \<Rightarrow> bool" where
  "ascii_text v = (case v of PyStr s \<Rightarrow> is_ascii s | PyFloat x \<Rightarrow> True)"

definition ascii_row :: "gpspath \<Rightarrow> bool" where
  "ascii_row p = (ascii_text (latitude p) \<and> ascii_text (longitude p))"

text \<open>
  \<open>aborts p\<close>: none of the \<^verbatim>\<open>float\<close> calls raises on \<open>p\<close>, and
  \<^verbatim>\<open>save()\<close> then raises \<^verbatim>\<open>IntegrityError\<close>, which ends the run.
\<close>

definition aborts :: "gpspath \<Rightarrow> bool" where
  "aborts p =
     (\<not> raises p \<and> (latitude (converted p) = PyFloat NaN \<or> longitude (converted p) = PyFloat NaN))"

subsection \<open>The ranges and forms that the specification names\<close>

text \<open>
  The migration checks no range. The specification's ranges are stated here to
  compare the code with them: a latitude within \<open>[-90, 90]\<close>, a longitude within
  \<open>[-180, 180]\<close>, both finite.
\<close>

definition is_finite :: "pyfloat \<Rightarrow> bool" where
  "is_finite x = (case x of Finite q \<Rightarrow> True | _ \<Rightarrow> False)"

definition lat_in_range :: "pyfloat \<Rightarrow> bool" where
  "lat_in_range x = (case x of Finite q \<Rightarrow> - 90 \<le> q \<and> q \<le> 90 | _ \<Rightarrow> False)"

definition lon_in_range :: "pyfloat \<Rightarrow> bool" where
  "lon_in_range x = (case x of Finite q \<Rightarrow> - 180 \<le> q \<and> q \<le> 180 | _ \<Rightarrow> False)"

text \<open>A row whose coordinates are numbers already, each in its range.\<close>

definition numeric_in_range :: "gpspath \<Rightarrow> bool" where
  "numeric_in_range p =
     (case latitude p of
        PyStr s \<Rightarrow> False
      | PyFloat x \<Rightarrow> (case longitude p of
                       PyStr t \<Rightarrow> False
                     | PyFloat y \<Rightarrow> lat_in_range x \<and> lon_in_range y))"

text \<open>
  A valid record in the specification's sense: its coordinates are numbers or parse
  to numbers, and the numbers are in range.
\<close>

definition spec_valid :: "gpspath \<Rightarrow> bool" where
  "spec_valid p = (\<not> raises p \<and> numeric_in_range (converted p))"

text \<open>
  The decimal forms that the specification names: optional white space at both ends,
  an optional sign, digits with at most one decimal point, and at least one digit.
\<close>

definition spec_decimal_form :: "string \<Rightarrow> bool" where
  "spec_decimal_form s =
     (let u = snd (parse_sign (strip s)); ip = takeWhile is_digit u; r = dropWhile is_digit u
      in case r of
           [] \<Rightarrow> ip \<noteq> []
         | c # fp \<Rightarrow> c = CHR ''.'' \<and> list_all is_digit fp \<and> (ip \<noteq> [] \<or> fp \<noteq> []))"

text \<open>
  The text that \<^verbatim>\<open>float\<close> reads as a number, stated apart from the parser. Every
  underscore stands between two digits; and the text without its underscores is white
  space, an optional sign, then either a decimal number (digits with at most one
  decimal point and at least one digit, optionally followed by an exponent: \<^verbatim>\<open>e\<close>
  or \<^verbatim>\<open>E\<close>, an optional sign, digits) or one of the words \<^verbatim>\<open>inf\<close>,
  \<^verbatim>\<open>infinity\<close>, \<^verbatim>\<open>nan\<close> in any letter case, then white space.
\<close>

definition sign_text :: "string \<Rightarrow> bool" where
  "sign_text sg \<longleftrightarrow> sg = [] \<or> sg = ''+'' \<or> sg = ''-''"

definition digit_text :: "string \<Rightarrow> bool" where
  "digit_text ds \<longleftrightarrow> ds \<noteq> [] \<and> list_all is_digit ds"

definition exponent_text :: "string \<Rightarrow> bool" where
  "exponent_text ex \<longleftrightarrow>
     (\<exists>e sg ds. ex = e # sg @ ds \<and> (e = CHR ''e'' \<or> e = CHR ''E'') \<and> sign_text sg \<and> digit_text ds)"

definition number_text :: "string \<Rightarrow> bool" where
  "number_text n \<longleftrightarrow>
     (\<exists>ip fp ex.
        (n = ip @ ex \<and> digit_text ip
         \<or> n = ip @ ''.'' @ fp @ ex \<and> list_all is_digit ip \<and> list_all is_digit fp
             \<and> (ip \<noteq> [] \<or> fp \<noteq> []))
        \<and> (ex = [] \<or> exponent_text ex))"

definition inf_or_nan_text :: "string \<Rightarrow> bool" where
  "inf_or_nan_text n \<longleftrightarrow>
     map to_lower n = ''inf'' \<or> map to_lower n = ''infinity'' \<or> map to_lower n = ''nan''"

definition plain_float_form :: "string \<Rightarrow> bool" where
  "plain_float_form t \<longleftrightarrow>
     (\<exists>a sg n b. t = a @ sg @ n @ b \<and> list_all is_space a \<and> list_all is_space b
        \<and> sign_text sg \<and> (number_text n \<or> inf_or_nan_text n))"

definition underscores_between_digits :: "string \<Rightarrow> bool" where
  "underscores_between_digits s \<longleftrightarrow>
     (\<forall>x y. s = x @ CHR ''_'' # y \<longrightarrow> x \<noteq> [] \<and> is_digit (last x) \<and> y \<noteq> [] \<and> is_digit (hd y))"

definition float_form :: "string \<Rightarrow> bool" where
  "float_form s \<longleftrightarrow>
     underscores_between_digits s \<and> plain_float_form (filter (\<lambda>c. c \<noteq> CHR ''_'') s)"

text \<open>Rows for the examples.\<close>

abbreviation row :: "int \<Rightarrow> pyval \<Rightarrow> pyval \<Rightarrow> gpspath" where
  "row i la lo \<equiv>
     \<lparr>point_id = i, scan = 1, latitude = la, longitude = lo, accuracy = Finite 100, timestamp = 0\<rparr>"

section \<open>Properties\<close>

subsection \<open>The loop\<close>

lemma py_float_error: "py_float s = Inl e \<Longrightarrow> e = ValueError"
  by (auto simp: py_float_def float_from_string_inner_def split: option.splits prod.splits)

lemma convert_fields_error: "convert_fields p = Inl e \<Longrightarrow> e = ValueError"
  by (auto simp: convert_fields_def convert_latitude_def convert_longitude_def
      dest: py_float_error split: sum.splits pyval.splits)

lemma converted_latitude_float: "\<not> raises p \<Longrightarrow> is_float (latitude (converted p))"
  by (auto simp: is_float_def raises_def converted_def convert_fields_def convert_latitude_def
      convert_longitude_def split: sum.splits pyval.splits)

lemma converted_longitude_float: "\<not> raises p \<Longrightarrow> is_float (longitude (converted p))"
  by (auto simp: is_float_def raises_def converted_def convert_fields_def convert_latitude_def
      convert_longitude_def split: sum.splits pyval.splits)

lemma save_floats:
  assumes "latitude q = PyFloat x" and "longitude q = PyFloat y"
  shows "save q w = (if x = NaN \<or> y = NaN then Inl IntegrityError else Inr (store q w))"
proof -
  have e: "q\<lparr>latitude := PyFloat x, longitude := PyFloat y\<rparr> = q"
    using assms by (cases q) simp
  from assms show ?thesis
    by (simp add: save_def get_prep_value_def e)
qed

lemma try_block_converted:
  assumes "\<not> raises p"
  shows "try_block p w = (if aborts p then Inl IntegrityError else Inr (store (converted p) w))"
proof -
  from assms obtain x y where x: "latitude (converted p) = PyFloat x"
    and y: "longitude (converted p) = PyFloat y"
    using converted_latitude_float [of p] converted_longitude_float [of p]
    by (auto simp: is_float_def split: pyval.splits)
  from assms have "try_block p w = save (converted p) w"
    by (auto simp: try_block_def raises_def converted_def split: sum.splits)
  with assms x y show ?thesis
    by (simp add: save_floats [OF x y] aborts_def)
qed

lemma loop_body_raises:
  "raises p \<Longrightarrow> loop_body p w = Inr (print (warning_line (point_id p)) w)"
  by (auto simp: raises_def loop_body_def try_block_def dest: convert_fields_error
      split: sum.splits)

lemma loop_body_aborts: "aborts p \<Longrightarrow> loop_body p w = Inl (IntegrityError, w)"
  by (simp add: loop_body_def try_block_converted aborts_def)

lemma loop_body_converted:
  "\<not> raises p \<Longrightarrow> \<not> aborts p \<Longrightarrow> loop_body p w = Inr (store (converted p) w)"
  by (simp add: loop_body_def try_block_converted)

lemma raises_not_aborts: "raises p \<Longrightarrow> \<not> aborts p"
  by (simp add: aborts_def)

lemma converted_is_nan_latitude:
  "\<not> raises p \<Longrightarrow> latitude (converted p) = PyFloat NaN \<longleftrightarrow> is_nan (latitude p)"
  by (auto simp: is_nan_def raises_def converted_def convert_fields_def convert_latitude_def
      convert_longitude_def split: sum.splits pyval.splits)

lemma converted_is_nan_longitude:
  "\<not> raises p \<Longrightarrow> longitude (converted p) = PyFloat NaN \<longleftrightarrow> is_nan (longitude p)"
  by (auto simp: is_nan_def raises_def converted_def convert_fields_def convert_latitude_def
      convert_longitude_def split: sum.splits pyval.splits)

lemma aborts_has_nan: "aborts p \<Longrightarrow> has_nan p"
  by (auto simp: aborts_def has_nan_def converted_is_nan_latitude converted_is_nan_longitude)

lemma for_each_outputs:
  "\<forall>p\<in>set ps. \<not> aborts p \<Longrightarrow>
   \<exists>w'. for_each ps w = Inr w'
     \<and> save_calls w' = save_calls w @ map converted (filter (\<lambda>p. \<not> raises p) ps)
     \<and> stdout w' = stdout w @ map (\<lambda>p. warning_line (point_id p)) (filter raises ps)"
proof (induction ps arbitrary: w)
  case Nil
  show ?case by simp
next
  case (Cons p ps)
  then have n: "\<not> aborts p" and r: "\<forall>p\<in>set ps. \<not> aborts p"
    by simp_all
  show ?case
  proof (cases "raises p")
    case True
    from Cons.IH [OF r, of "print (warning_line (point_id p)) w"] True show ?thesis
      by (auto simp: loop_body_raises print_def)
  next
    case False
    from Cons.IH [OF r, of "store (converted p) w"] False n show ?thesis
      by (auto simp: loop_body_converted store_def)
  qed
qed

lemma for_each_returns: "for_each ps w = Inr w' \<Longrightarrow> \<forall>p\<in>set ps. \<not> aborts p"
proof (induction ps arbitrary: w)
  case Nil
  show ?case by simp
next
  case (Cons p ps)
  have n: "\<not> aborts p"
  proof
    assume "aborts p"
    with Cons.prems show False
      by (simp add: loop_body_aborts)
  qed
  obtain w1 where l: "loop_body p w = Inr w1"
    using Cons.prems by (cases "loop_body p w") auto
  with Cons.prems have "for_each ps w1 = Inr w'"
    by simp
  from Cons.IH [OF this] n show ?case
    by simp
qed

lemma converted_point_id: "point_id (converted p) = point_id p"
  by (auto simp: converted_def convert_fields_def convert_latitude_def convert_longitude_def
      split: sum.splits pyval.splits)

lemma raises_converted: "raises p \<Longrightarrow> converted p = p"
  by (auto simp: raises_def converted_def split: sum.splits)

lemma save_row_update:
  "point_id p \<notin> point_id ` set xs \<Longrightarrow> point_id p' = point_id p
     \<Longrightarrow> save_row p' (xs @ p # ys) = xs @ p' # ys"
  by (induction xs) auto

text \<open>
  The state in which a run ends, returned or not: the rows before the first one on
  which \<^verbatim>\<open>save()\<close> fails have been processed, the others not.
\<close>

lemma for_each_final:
  "distinct (map point_id (pre @ ps)) \<Longrightarrow> table w = map converted pre @ ps \<Longrightarrow>
   table (final_world (for_each ps w))
     = map converted (pre @ takeWhile (\<lambda>p. \<not> aborts p) ps) @ dropWhile (\<lambda>p. \<not> aborts p) ps"
proof (induction ps arbitrary: pre w)
  case Nil
  then show ?case by (simp add: final_world_def)
next
  case (Cons p ps)
  have d: "distinct (map point_id ((pre @ [p]) @ ps))"
    using Cons.prems(1) by simp
  show ?case
  proof (cases "aborts p")
    case True
    with Cons.prems(2) show ?thesis
      by (simp add: loop_body_aborts final_world_def)
  next
    case na: False
    show ?thesis
    proof (cases "raises p")
      case True
      let ?w = "print (warning_line (point_id p)) w"
      have t: "table ?w = map converted (pre @ [p]) @ ps"
        using Cons.prems(2) True by (simp add: print_def raises_converted)
      from Cons.IH [OF d t] True na show ?thesis
        by (simp add: loop_body_raises)
    next
      case False
      let ?w = "store (converted p) w"
      have n: "point_id p \<notin> point_id ` set (map converted pre)"
        using Cons.prems(1) by (auto simp: converted_point_id image_iff)
      have t: "table ?w = map converted (pre @ [p]) @ ps"
        using Cons.prems(2) save_row_update [OF n converted_point_id, of ps]
        by (simp add: store_def)
      from Cons.IH [OF d t] False na show ?thesis
        by (simp add: loop_body_converted)
    qed
  qed
qed

lemma for_each_final_outputs:
  "save_calls (final_world (for_each ps w))
     = save_calls w @ map converted (filter (\<lambda>p. \<not> raises p) (takeWhile (\<lambda>p. \<not> aborts p) ps))
   \<and> stdout (final_world (for_each ps w))
     = stdout w @ map (\<lambda>p. warning_line (point_id p))
         (filter raises (takeWhile (\<lambda>p. \<not> aborts p) ps))"
proof (induction ps arbitrary: w)
  case Nil
  show ?case by (simp add: final_world_def)
next
  case (Cons p ps)
  show ?case
  proof (cases "aborts p")
    case True
    then show ?thesis
      by (simp add: loop_body_aborts final_world_def)
  next
    case na: False
    show ?thesis
    proof (cases "raises p")
      case True
      from Cons.IH [of "print (warning_line (point_id p)) w"] True na show ?thesis
        by (simp add: loop_body_raises print_def)
    next
      case False
      from Cons.IH [of "store (converted p) w"] False na show ?thesis
        by (simp add: loop_body_converted store_def)
    qed
  qed
qed

lemma partly_mapped_nth:
  "i < length xs \<Longrightarrow>
   (map f (takeWhile P xs) @ dropWhile P xs) ! i = xs ! i
   \<or> (map f (takeWhile P xs) @ dropWhile P xs) ! i = f (xs ! i)"
proof (induction xs arbitrary: i)
  case Nil
  then show ?case by simp
next
  case (Cons x xs)
  then show ?case
    by (cases i) auto
qed

lemma partly_mapped_length: "length (map f (takeWhile P xs) @ dropWhile P xs) = length xs"
  by (induction xs) auto

lemma run_final:
  assumes "distinct (map point_id tbl)"
  shows "table (final_world (convert_gps_strings_to_floats tbl))
      = map converted (takeWhile (\<lambda>p. \<not> aborts p) tbl) @ dropWhile (\<lambda>p. \<not> aborts p) tbl"
  using for_each_final [of "[]" tbl "\<lparr>table = tbl, stdout = [], save_calls = []\<rparr>"] assms
  by (simp add: convert_gps_strings_to_floats_def)

lemma run_final_saves:
  "save_calls (final_world (convert_gps_strings_to_floats tbl))
     = map converted (filter (\<lambda>p. \<not> raises p) (takeWhile (\<lambda>p. \<not> aborts p) tbl))"
  using for_each_final_outputs [of tbl "\<lparr>table = tbl, stdout = [], save_calls = []\<rparr>"]
  by (simp add: convert_gps_strings_to_floats_def)

lemma run_outputs:
  assumes "\<forall>p\<in>set tbl. \<not> has_nan p"
  shows "\<exists>w'. convert_gps_strings_to_floats tbl = Inr w'
    \<and> save_calls w' = map converted (filter (\<lambda>p. \<not> raises p) tbl)
    \<and> stdout w' = map (\<lambda>p. warning_line (point_id p)) (filter raises tbl)"
proof -
  from assms have "\<forall>p\<in>set tbl. \<not> aborts p"
    using aborts_has_nan by blast
  from for_each_outputs [OF this, of "\<lparr>table = tbl, stdout = [], save_calls = []\<rparr>"]
  show ?thesis
    by (simp add: convert_gps_strings_to_floats_def)
qed

lemma run_returned:
  assumes "convert_gps_strings_to_floats tbl = Inr w'"
  shows "(\<forall>p\<in>set tbl. \<not> aborts p)
    \<and> save_calls w' = map converted (filter (\<lambda>p. \<not> raises p) tbl)
    \<and> stdout w' = map (\<lambda>p. warning_line (point_id p)) (filter raises tbl)"
proof -
  let ?w = "\<lparr>table = tbl, stdout = [], save_calls = []\<rparr>"
  from assms have f: "for_each tbl ?w = Inr w'"
    by (simp add: convert_gps_strings_to_floats_def)
  from for_each_returns [OF f] have n: "\<forall>p\<in>set tbl. \<not> aborts p" .
  from for_each_outputs [OF n, of ?w] f n show ?thesis
    by auto
qed

text \<open>
  A table whose first row parses to a NaN: \<^verbatim>\<open>save()\<close> raises on it, the handler
  does not catch the exception, and the run ends there, with nothing saved and no
  warning for the second row, whose latitude does not parse.
\<close>

lemma nan_row_ends_run:
  "convert_gps_strings_to_floats
     [row 4 (PyStr ''nan'') (PyStr ''inf''), row 5 (PyStr ''1.5x'') (PyFloat (Finite 2)),
      row 6 (PyStr ''1_0'') (PyFloat (Finite 3))] =
   Inl (IntegrityError,
        \<lparr>table = [row 4 (PyStr ''nan'') (PyStr ''inf''), row 5 (PyStr ''1.5x'') (PyFloat (Finite 2)),
                  row 6 (PyStr ''1_0'') (PyFloat (Finite 3))],
         stdout = [], save_calls = []\<rparr>)"
  by code_simp

lemma float_fields_not_raises:
  "is_float (latitude p) \<Longrightarrow> is_float (longitude p) \<Longrightarrow> \<not> raises p"
  by (auto simp: is_float_def raises_def convert_fields_def convert_latitude_def
      convert_longitude_def split: pyval.splits)

lemma float_fields_converted:
  "is_float (latitude p) \<Longrightarrow> is_float (longitude p) \<Longrightarrow> converted p = p"
  by (auto simp: is_float_def converted_def convert_fields_def convert_latitude_def
      convert_longitude_def split: pyval.splits)

lemma numeric_in_range_float:
  "numeric_in_range p \<Longrightarrow> is_float (latitude p) \<and> is_float (longitude p)"
  by (auto simp: numeric_in_range_def is_float_def split: pyval.splits)

lemma numeric_in_range_not_nan: "numeric_in_range p \<Longrightarrow> \<not> has_nan p"
  by (auto simp: numeric_in_range_def has_nan_def is_nan_def lat_in_range_def lon_in_range_def
      split: pyval.splits)

lemma filter_map_unchanged:
  "\<forall>p\<in>set ps. \<not> raises p \<and> converted p = p
     \<Longrightarrow> map converted (filter (\<lambda>p. \<not> raises p) ps) = ps \<and> filter raises ps = []"
  by (induction ps) auto

subsection \<open>Rows that are numeric already\<close>

text \<open>
  C6. When every row of the input has a numeric latitude and longitude, each in its
  range, the migration saves exactly those rows, unchanged and in their order, and
  prints no warning.
\<close>

theorem numeric_in_range_unchanged:
  assumes "\<forall>p\<in>set tbl. numeric_in_range p"
  shows "\<exists>w'. convert_gps_strings_to_floats tbl = Inr w' \<and> save_calls w' = tbl \<and> stdout w' = []"
proof -
  have "\<forall>p\<in>set tbl. \<not> raises p \<and> converted p = p"
    using assms numeric_in_range_float float_fields_not_raises float_fields_converted
    by blast
  then have "map converted (filter (\<lambda>p. \<not> raises p) tbl) = tbl \<and> filter raises tbl = []"
    by (rule filter_map_unchanged)
  moreover have "\<forall>p\<in>set tbl. \<not> has_nan p"
    using assms numeric_in_range_not_nan by blast
  ultimately show ?thesis
    using run_outputs [of tbl] by auto
qed

theorem numeric_in_range_unchanged_witness:
  "numeric_in_range (row 1 (PyFloat (Finite 45)) (PyFloat (Finite (- 122))))
   \<and> (\<exists>w'. convert_gps_strings_to_floats [row 1 (PyFloat (Finite 45)) (PyFloat (Finite (- 122)))] = Inr w'
         \<and> save_calls w' = [row 1 (PyFloat (Finite 45)) (PyFloat (Finite (- 122)))]
         \<and> stdout w' = [])"
proof -
  have h: "numeric_in_range (row 1 (PyFloat (Finite 45)) (PyFloat (Finite (- 122))))"
    by (simp add: numeric_in_range_def lat_in_range_def lon_in_range_def)
  then have "\<forall>p\<in>set [row 1 (PyFloat (Finite 45)) (PyFloat (Finite (- 122)))]. numeric_in_range p"
    by simp
  from numeric_in_range_unchanged [OF this] h show ?thesis
    by blast
qed

subsection \<open>Running the migration on what it saved\<close>

lemma saved_row_fixed:
  assumes "\<not> raises p" and "\<not> aborts p"
  shows "\<not> raises (converted p) \<and> converted (converted p) = converted p
    \<and> \<not> aborts (converted p)"
proof -
  have f: "is_float (latitude (converted p))" "is_float (longitude (converted p))"
    using assms(1) by (simp_all add: converted_latitude_float converted_longitude_float)
  then have r: "\<not> raises (converted p)" and c: "converted (converted p) = converted p"
    by (simp_all add: float_fields_not_raises float_fields_converted)
  with assms show ?thesis
    by (simp add: aborts_def)
qed

text \<open>
  C8. The migration is idempotent on its own output: when a first run returns, a run
  on the rows that it saved returns too, saves the same rows again, unchanged and in
  the same order, and prints no warning.
\<close>

theorem convert_idempotent:
  assumes "\<forall>p\<in>set tbl. ascii_row p"
    and "convert_gps_strings_to_floats tbl = Inr w1"
  shows "\<exists>w2. convert_gps_strings_to_floats (save_calls w1) = Inr w2
     \<and> save_calls w2 = save_calls w1 \<and> stdout w2 = []"
proof -
  from run_returned [OF assms(2)]
  have n: "\<forall>p\<in>set tbl. \<not> aborts p"
    and s1: "save_calls w1 = map converted (filter (\<lambda>p. \<not> raises p) tbl)"
    by simp_all
  have a: "\<forall>q\<in>set (save_calls w1). \<not> raises q \<and> converted q = q \<and> \<not> aborts q"
    using s1 n saved_row_fixed by auto
  then have u: "map converted (filter (\<lambda>p. \<not> raises p) (save_calls w1)) = save_calls w1
      \<and> filter raises (save_calls w1) = []"
    using filter_map_unchanged [of "save_calls w1"] by blast
  from a have "\<forall>q\<in>set (save_calls w1). \<not> aborts q"
    by blast
  from for_each_outputs [OF this, of "\<lparr>table = save_calls w1, stdout = [], save_calls = []\<rparr>"] u
  show ?thesis
    by (auto simp: convert_gps_strings_to_floats_def)
qed

theorem convert_idempotent_witness:
  "list_all ascii_row [row 1 (PyStr ''91.0'') (PyStr ''0''), row 2 (PyStr ''x'') (PyFloat (Finite 1))]
   \<and> convert_gps_strings_to_floats
        [row 1 (PyStr ''91.0'') (PyStr ''0''), row 2 (PyStr ''x'') (PyFloat (Finite 1))] =
       Inr \<lparr>table = [row 1 (PyFloat (Finite 91)) (PyFloat (Finite 0)),
                     row 2 (PyStr ''x'') (PyFloat (Finite 1))],
            stdout = [''Warning: Could not convert GPS coordinates for point 2''],
            save_calls = [row 1 (PyFloat (Finite 91)) (PyFloat (Finite 0))]\<rparr>
   \<and> (\<exists>w2. convert_gps_strings_to_floats [row 1 (PyFloat (Finite 91)) (PyFloat (Finite 0))] = Inr w2
         \<and> save_calls w2 = [row 1 (PyFloat (Finite 91)) (PyFloat (Finite 0))]
         \<and> stdout w2 = [])"
proof -
  let ?tbl = "[row 1 (PyStr ''91.0'') (PyStr ''0''), row 2 (PyStr ''x'') (PyFloat (Finite 1))]"
  let ?w1 = "\<lparr>table = [row 1 (PyFloat (Finite 91)) (PyFloat (Finite 0)),
                     row 2 (PyStr ''x'') (PyFloat (Finite 1))],
            stdout = [''Warning: Could not convert GPS coordinates for point 2''],
            save_calls = [row 1 (PyFloat (Finite 91)) (PyFloat (Finite 0))]\<rparr>"
  have a: "list_all ascii_row ?tbl"
    by code_simp
  then have a': "\<forall>p\<in>set ?tbl. ascii_row p"
    by (simp only: list_all_iff)
  have r: "convert_gps_strings_to_floats ?tbl = Inr ?w1"
    by code_simp
  from convert_idempotent [OF a' r] a r show ?thesis
    by simp
qed

subsection \<open>The reverse operation\<close>

text \<open>
  C10. \<^verbatim>\<open>reverse_conversion\<close> is a no-op: on every table it returns without error,
  saves nothing, prints nothing and leaves the table as it was. In particular,
  reversing after a forward migration leaves the table as the forward migration left
  it: the conversion is not undone.
\<close>

theorem reverse_conversion_noop:
  "(\<exists>w. reverse_conversion tbl = Inr w \<and> table w = tbl \<and> save_calls w = [] \<and> stdout w = [])
   \<and> (\<exists>w2. reverse_conversion (table (final_world (convert_gps_strings_to_floats tbl))) = Inr w2
         \<and> table w2 = table (final_world (convert_gps_strings_to_floats tbl)))"
  by (simp add: reverse_conversion_def)

subsection \<open>Rows whose coordinates parse\<close>

lemma converted_latitude_parsed:
  "\<not> raises p \<Longrightarrow> latitude p = PyStr s \<Longrightarrow> py_float s = Inr x
     \<Longrightarrow> latitude (converted p) = PyFloat x"
  by (auto simp: raises_def converted_def convert_fields_def convert_latitude_def
      convert_longitude_def split: sum.splits pyval.splits)

lemma converted_longitude_parsed:
  "\<not> raises p \<Longrightarrow> longitude p = PyStr t \<Longrightarrow> py_float t = Inr y
     \<Longrightarrow> longitude (converted p) = PyFloat y"
  by (auto simp: raises_def converted_def convert_fields_def convert_latitude_def
      convert_longitude_def split: sum.splits pyval.splits)

text \<open>
  C1, as the code has it. The migration checks no range. In a batch of ASCII text in
  which no coordinate is or parses to a NaN, a row each of whose textual coordinates
  parses is saved with the parsed numbers as they are, whether or not they lie in the
  geographic ranges, and its iteration prints nothing. No reason
  \<^verbatim>\<open>OUT_OF_RANGE\<close> exists.
\<close>

theorem parsed_row_saved:
  assumes "p \<in> set tbl" and "\<not> raises p"
    and "\<forall>q\<in>set tbl. ascii_row q" and "\<forall>q\<in>set tbl. \<not> has_nan q"
  shows "loop_body p w = Inr (store (converted p) w)
    \<and> stdout (store (converted p) w) = stdout w
    \<and> (\<exists>w'. convert_gps_strings_to_floats tbl = Inr w' \<and> converted p \<in> set (save_calls w'))
    \<and> (\<forall>s x. latitude p = PyStr s \<longrightarrow> py_float s = Inr x \<longrightarrow> latitude (converted p) = PyFloat x)
    \<and> (\<forall>t y. longitude p = PyStr t \<longrightarrow> py_float t = Inr y \<longrightarrow> longitude (converted p) = PyFloat y)"
proof -
  from run_outputs [OF assms(4)]
  obtain w' where "convert_gps_strings_to_floats tbl = Inr w'"
    and "save_calls w' = map converted (filter (\<lambda>p. \<not> raises p) tbl)"
    by blast
  with assms(1,2)
  have "\<exists>w'. convert_gps_strings_to_floats tbl = Inr w' \<and> converted p \<in> set (save_calls w')"
    by auto
  moreover have "stdout (store (converted p) w) = stdout w"
    by (simp add: store_def)
  moreover have "\<not> aborts p"
    using assms(1,4) aborts_has_nan by blast
  ultimately show ?thesis
    using assms(2) loop_body_converted converted_latitude_parsed converted_longitude_parsed
    by blast
qed

theorem parsed_row_saved_witness:
  "row 1 (PyStr ''91.0'') (PyStr ''0'') \<in> set [row 1 (PyStr ''91.0'') (PyStr ''0'')]
   \<and> \<not> raises (row 1 (PyStr ''91.0'') (PyStr ''0''))
   \<and> list_all ascii_row [row 1 (PyStr ''91.0'') (PyStr ''0'')]
   \<and> list_all (\<lambda>q. \<not> has_nan q) [row 1 (PyStr ''91.0'') (PyStr ''0'')]
   \<and> py_float ''91.0'' = Inr (Finite 91)
   \<and> latitude (converted (row 1 (PyStr ''91.0'') (PyStr ''0''))) = PyFloat (Finite 91)
   \<and> (\<exists>w'. convert_gps_strings_to_floats [row 1 (PyStr ''91.0'') (PyStr ''0'')] = Inr w'
         \<and> converted (row 1 (PyStr ''91.0'') (PyStr ''0'')) \<in> set (save_calls w'))"
proof -
  let ?tbl = "[row 1 (PyStr ''91.0'') (PyStr ''0'')]"
  have m: "row 1 (PyStr ''91.0'') (PyStr ''0'') \<in> set ?tbl"
    by simp
  have r: "\<not> raises (row 1 (PyStr ''91.0'') (PyStr ''0''))"
    by code_simp
  have a: "list_all ascii_row ?tbl"
    by code_simp
  then have a': "\<forall>q\<in>set ?tbl. ascii_row q"
    by (simp only: list_all_iff)
  have n: "list_all (\<lambda>q. \<not> has_nan q) ?tbl"
    by code_simp
  then have n': "\<forall>q\<in>set ?tbl. \<not> has_nan q"
    by (simp only: list_all_iff)
  have f: "py_float ''91.0'' = Inr (Finite 91)"
    by code_simp
  from parsed_row_saved [OF m r a' n', of "\<lparr>table = [], stdout = [], save_calls = []\<rparr>"] m r a n f
  show ?thesis
    by simp
qed

text \<open>
  A row with the latitude \<^verbatim>\<open>91.0\<close>: the text parses to 91, outside
  \<open>[-90, 90]\<close>; the row is saved with it and nothing is printed.
\<close>

theorem out_of_range_latitude_saved:
  "py_float ''91.0'' = Inr (Finite 91) \<and> \<not> lat_in_range (Finite 91)
   \<and> convert_gps_strings_to_floats [row 1 (PyStr ''91.0'') (PyStr ''0'')] =
       Inr \<lparr>table = [row 1 (PyFloat (Finite 91)) (PyFloat (Finite 0))],
            stdout = [],
            save_calls = [row 1 (PyFloat (Finite 91)) (PyFloat (Finite 0))]\<rparr>"
  by code_simp

subsection \<open>Rows on which parsing fails\<close>

lemma raises_iff:
  "raises p \<longleftrightarrow>
     (\<exists>s. latitude p = PyStr s \<and> py_float s = Inl ValueError)
     \<or> (\<exists>t. longitude p = PyStr t \<and> py_float t = Inl ValueError)"
  by (auto simp: raises_def convert_fields_def convert_latitude_def convert_longitude_def
      dest: py_float_error split: sum.splits pyval.splits)

text \<open>
  C2, as the code has it. A row fails exactly when \<^verbatim>\<open>float\<close> raises
  \<^verbatim>\<open>ValueError\<close> on its textual latitude or longitude. In a batch of ASCII text in
  which no coordinate is or parses to a NaN, the migration returns, and for each
  failing row, in input order, one warning line naming the row's id is printed (the
  line carries no reason tag); the rows after it are processed all the same. No range
  is validated, so a range violation is not a failure.
\<close>

theorem parse_failures_reported:
  assumes "\<forall>q\<in>set tbl. ascii_row q" and "\<forall>q\<in>set tbl. \<not> has_nan q"
  shows "(\<exists>w'. convert_gps_strings_to_floats tbl = Inr w'
      \<and> stdout w' = map (\<lambda>p. warning_line (point_id p)) (filter raises tbl))
   \<and> (raises p \<longleftrightarrow>
        (\<exists>s. latitude p = PyStr s \<and> py_float s = Inl ValueError)
        \<or> (\<exists>t. longitude p = PyStr t \<and> py_float t = Inl ValueError))"
  using run_outputs [OF assms(2)] raises_iff [of p]
  by auto

theorem parse_failures_reported_witness:
  "list_all ascii_row [row 7 (PyStr ''10'') (PyStr ''abc''), row 8 (PyStr ''1'') (PyStr ''2'')]
   \<and> list_all (\<lambda>q. \<not> has_nan q)
        [row 7 (PyStr ''10'') (PyStr ''abc''), row 8 (PyStr ''1'') (PyStr ''2'')]
   \<and> py_float ''abc'' = Inl ValueError
   \<and> (\<exists>w'. convert_gps_strings_to_floats
              [row 7 (PyStr ''10'') (PyStr ''abc''), row 8 (PyStr ''1'') (PyStr ''2'')] = Inr w'
         \<and> stdout w' = [''Warning: Could not convert GPS coordinates for point 7''])"
proof -
  let ?tbl = "[row 7 (PyStr ''10'') (PyStr ''abc''), row 8 (PyStr ''1'') (PyStr ''2'')]"
  have a: "list_all ascii_row ?tbl"
    by code_simp
  then have a': "\<forall>q\<in>set ?tbl. ascii_row q"
    by (simp only: list_all_iff)
  have n: "list_all (\<lambda>q. \<not> has_nan q) ?tbl"
    by code_simp
  then have n': "\<forall>q\<in>set ?tbl. \<not> has_nan q"
    by (simp only: list_all_iff)
  have f: "py_float ''abc'' = Inl ValueError"
    by code_simp
  have e: "map (\<lambda>p. warning_line (point_id p)) (filter raises ?tbl)
        = [''Warning: Could not convert GPS coordinates for point 7'']"
    by code_simp
  from parse_failures_reported [OF a' n', of "row 7 (PyStr ''10'') (PyStr ''abc'')"]
  obtain w' where c: "convert_gps_strings_to_floats ?tbl = Inr w'"
    and o: "stdout w' = map (\<lambda>p. warning_line (point_id p)) (filter raises ?tbl)"
    by blast
  from o e have "stdout w' = [''Warning: Could not convert GPS coordinates for point 7'']"
    by (simp only:)
  with c f a n show ?thesis
    by blast
qed

text \<open>
  A row with the longitude \<^verbatim>\<open>181\<close>: the text parses to 181, outside
  \<open>[-180, 180]\<close>; no warning is printed for the row.
\<close>

theorem out_of_range_longitude_not_reported:
  "py_float ''181'' = Inr (Finite 181) \<and> \<not> lon_in_range (Finite 181)
   \<and> convert_gps_strings_to_floats [row 2 (PyStr ''10'') (PyStr ''181'')] =
       Inr \<lparr>table = [row 2 (PyFloat (Finite 10)) (PyFloat (Finite 181))],
            stdout = [],
            save_calls = [row 2 (PyFloat (Finite 10)) (PyFloat (Finite 181))]\<rparr>"
  by code_simp

subsection \<open>What the saved rows hold\<close>

text \<open>
  C3, as the code has it. For ASCII text, every row that the migration saves, in any
  run, has a floating-point latitude and longitude: no text survives. For a textual
  coordinate the number is whatever \<^verbatim>\<open>float\<close> parsed, which may be an infinity
  or out of range. The run returns when no coordinate of the batch is or parses to a
  NaN.
\<close>

theorem saved_rows_are_floats:
  assumes "\<forall>q\<in>set tbl. ascii_row q"
  shows "(\<forall>p\<in>set (save_calls (final_world (convert_gps_strings_to_floats tbl))).
            is_float (latitude p) \<and> is_float (longitude p))
    \<and> ((\<forall>q\<in>set tbl. \<not> has_nan q) \<longrightarrow> (\<exists>w'. convert_gps_strings_to_floats tbl = Inr w'))"
proof -
  have "is_float (latitude p) \<and> is_float (longitude p)"
    if "p \<in> set (save_calls (final_world (convert_gps_strings_to_floats tbl)))" for p
  proof -
    from that obtain q where "\<not> raises q" and "p = converted q"
      by (auto simp: run_final_saves)
    then show ?thesis
      by (simp add: converted_latitude_float converted_longitude_float)
  qed
  moreover have "\<exists>w'. convert_gps_strings_to_floats tbl = Inr w'" if "\<forall>q\<in>set tbl. \<not> has_nan q"
    using run_outputs [OF that] by blast
  ultimately show ?thesis
    by blast
qed

theorem saved_rows_are_floats_witness:
  "list_all ascii_row [row 3 (PyStr ''45.5'') (PyFloat (Finite 7))]
   \<and> list_all (\<lambda>q. \<not> has_nan q) [row 3 (PyStr ''45.5'') (PyFloat (Finite 7))]
   \<and> (\<exists>w'. convert_gps_strings_to_floats [row 3 (PyStr ''45.5'') (PyFloat (Finite 7))] = Inr w'
         \<and> save_calls w' = [row 3 (PyFloat (Finite (91 / 2))) (PyFloat (Finite 7))])
   \<and> is_float (latitude (row 3 (PyFloat (Finite (91 / 2))) (PyFloat (Finite 7))))
   \<and> is_float (longitude (row 3 (PyFloat (Finite (91 / 2))) (PyFloat (Finite 7))))"
proof -
  let ?tbl = "[row 3 (PyStr ''45.5'') (PyFloat (Finite 7))]"
  let ?r = "row 3 (PyFloat (Finite (91 / 2))) (PyFloat (Finite 7))"
  have a: "list_all ascii_row ?tbl"
    by code_simp
  then have a': "\<forall>q\<in>set ?tbl. ascii_row q"
    by (simp only: list_all_iff)
  have n: "list_all (\<lambda>q. \<not> has_nan q) ?tbl"
    by code_simp
  then have n': "\<forall>q\<in>set ?tbl. \<not> has_nan q"
    by (simp only: list_all_iff)
  have e: "convert_gps_strings_to_floats ?tbl =
      Inr \<lparr>table = [?r], stdout = [], save_calls = [?r]\<rparr>"
    by code_simp
  then have s: "save_calls (final_world (convert_gps_strings_to_floats ?tbl)) = [?r]"
    by (simp add: final_world_def)
  from saved_rows_are_floats [OF a'] n'
  have "\<exists>w'. convert_gps_strings_to_floats ?tbl = Inr w'"
    by blast
  with e have x: "\<exists>w'. convert_gps_strings_to_floats ?tbl = Inr w' \<and> save_calls w' = [?r]"
    by auto
  from saved_rows_are_floats [OF a'] s
  have "is_float (latitude ?r) \<and> is_float (longitude ?r)"
    by simp
  with a n x show ?thesis
    by blast
qed

text \<open>
  A row with the coordinates \<^verbatim>\<open>inf\<close> and \<^verbatim>\<open>-200\<close> is saved with an infinite
  latitude and a longitude outside \<open>[-180, 180]\<close>.
\<close>

theorem infinity_and_out_of_range_saved:
  "convert_gps_strings_to_floats [row 4 (PyStr ''inf'') (PyStr ''-200'')] =
       Inr \<lparr>table = [row 4 (PyFloat PosInf) (PyFloat (Finite (- 200)))],
            stdout = [],
            save_calls = [row 4 (PyFloat PosInf) (PyFloat (Finite (- 200)))]\<rparr>
   \<and> \<not> is_finite PosInf \<and> \<not> lat_in_range PosInf \<and> \<not> lon_in_range (Finite (- 200))"
  by code_simp

subsection \<open>Counts and order of the two outputs\<close>

text \<open>
  C7, as the code has it. Call a record convertible when \<^verbatim>\<open>float\<close> parses each of
  its textual coordinates (its range is not looked at). Of a batch of ASCII text in
  which no coordinate is or parses to a NaN, with \<open>N\<close> convertible and \<open>M\<close>
  other records, the migration saves exactly the \<open>N\<close> convertible ones, converted,
  and prints exactly \<open>M\<close> warnings, one for each of the others; both sequences
  are in input order. With the specification's validity, which also asks for the
  range, the counts fail.
\<close>

theorem outputs_partition_input:
  assumes "\<forall>q\<in>set tbl. ascii_row q" and "\<forall>q\<in>set tbl. \<not> has_nan q"
  shows "\<exists>w'. convert_gps_strings_to_floats tbl = Inr w'
     \<and> save_calls w' = map converted (filter (\<lambda>p. \<not> raises p) tbl)
     \<and> stdout w' = map (\<lambda>p. warning_line (point_id p)) (filter raises tbl)
     \<and> length (save_calls w') = length (filter (\<lambda>p. \<not> raises p) tbl)
     \<and> length (stdout w') = length (filter raises tbl)
     \<and> length (save_calls w') + length (stdout w') = length tbl"
proof -
  from run_outputs [OF assms(2)]
  obtain w' where c: "convert_gps_strings_to_floats tbl = Inr w'"
    and s: "save_calls w' = map converted (filter (\<lambda>p. \<not> raises p) tbl)"
    and o: "stdout w' = map (\<lambda>p. warning_line (point_id p)) (filter raises tbl)"
    by blast
  have "length (filter (\<lambda>p. \<not> raises p) tbl) + length (filter raises tbl) = length tbl"
    using sum_length_filter_compl [of raises tbl] by simp
  with c s o show ?thesis
    by simp
qed

theorem outputs_partition_input_witness:
  "list_all ascii_row
     [row 1 (PyStr ''1.5'') (PyStr ''2''), row 2 (PyStr ''x'') (PyStr ''0''), row 3 (PyStr ''9e1'') (PyStr ''-7'')]
   \<and> list_all (\<lambda>q. \<not> has_nan q)
     [row 1 (PyStr ''1.5'') (PyStr ''2''), row 2 (PyStr ''x'') (PyStr ''0''), row 3 (PyStr ''9e1'') (PyStr ''-7'')]
   \<and> (\<exists>w'. convert_gps_strings_to_floats
         [row 1 (PyStr ''1.5'') (PyStr ''2''), row 2 (PyStr ''x'') (PyStr ''0''),
          row 3 (PyStr ''9e1'') (PyStr ''-7'')] = Inr w'
       \<and> save_calls w' = [row 1 (PyFloat (Finite (3 / 2))) (PyFloat (Finite 2)),
                          row 3 (PyFloat (Finite 90)) (PyFloat (Finite (- 7)))]
       \<and> stdout w' = [''Warning: Could not convert GPS coordinates for point 2''])"
proof -
  let ?tbl = "[row 1 (PyStr ''1.5'') (PyStr ''2''), row 2 (PyStr ''x'') (PyStr ''0''),
          row 3 (PyStr ''9e1'') (PyStr ''-7'')]"
  have a: "list_all ascii_row ?tbl"
    by code_simp
  then have a': "\<forall>q\<in>set ?tbl. ascii_row q"
    by (simp only: list_all_iff)
  have n: "list_all (\<lambda>q. \<not> has_nan q) ?tbl"
    by code_simp
  then have n': "\<forall>q\<in>set ?tbl. \<not> has_nan q"
    by (simp only: list_all_iff)
  have s: "map converted (filter (\<lambda>p. \<not> raises p) ?tbl)
      = [row 1 (PyFloat (Finite (3 / 2))) (PyFloat (Finite 2)),
         row 3 (PyFloat (Finite 90)) (PyFloat (Finite (- 7)))]"
    by code_simp
  have o: "map (\<lambda>p. warning_line (point_id p)) (filter raises ?tbl)
      = [''Warning: Could not convert GPS coordinates for point 2'']"
    by code_simp
  from outputs_partition_input [OF a' n']
  obtain w' where c: "convert_gps_strings_to_floats ?tbl = Inr w'"
    and s': "save_calls w' = map converted (filter (\<lambda>p. \<not> raises p) ?tbl)"
    and o': "stdout w' = map (\<lambda>p. warning_line (point_id p)) (filter raises ?tbl)"
    by blast
  from s s' have "save_calls w' = [row 1 (PyFloat (Finite (3 / 2))) (PyFloat (Finite 2)),
         row 3 (PyFloat (Finite 90)) (PyFloat (Finite (- 7)))]"
    by (simp only:)
  moreover from o o' have "stdout w' = [''Warning: Could not convert GPS coordinates for point 2'']"
    by (simp only:)
  ultimately show ?thesis
    using c a n by blast
qed

text \<open>
  A batch of one record with the longitude \<^verbatim>\<open>-200.5\<close>: no record of it is
  valid in the specification's sense and one is not, yet one record is saved and no
  warning is printed.
\<close>

theorem spec_invalid_row_saved:
  "length (filter spec_valid [row 5 (PyStr ''45'') (PyStr ''-200.5'')]) = 0
   \<and> length (filter (\<lambda>p. \<not> spec_valid p) [row 5 (PyStr ''45'') (PyStr ''-200.5'')]) = 1
   \<and> convert_gps_strings_to_floats [row 5 (PyStr ''45'') (PyStr ''-200.5'')] =
       Inr \<lparr>table = [row 5 (PyFloat (Finite 45)) (PyFloat (Finite (- (401 / 2))))],
            stdout = [],
            save_calls = [row 5 (PyFloat (Finite 45)) (PyFloat (Finite (- (401 / 2))))]\<rparr>"
  by code_simp

subsection \<open>The table after a run\<close>

text \<open>
  C9. Conversion is atomic for each row with respect to the table. With unique primary
  keys and ASCII text, in every run, returned or left by an exception, a row on which
  converting the latitude or the longitude raises is never passed to \<^verbatim>\<open>save()\<close>
  (no saved object has its key), and in the state in which the run ends the table
  holds that row exactly as before: in particular not with one coordinate converted
  and the other not.
\<close>

theorem failed_row_never_saved:
  assumes "distinct (map point_id tbl)" and "\<forall>q\<in>set tbl. ascii_row q"
    and "i < length tbl" and "raises (tbl ! i)"
  shows "table (final_world (convert_gps_strings_to_floats tbl)) ! i = tbl ! i
    \<and> point_id (tbl ! i) \<notin> point_id ` set (save_calls (final_world (convert_gps_strings_to_floats tbl)))"
proof -
  let ?w = "final_world (convert_gps_strings_to_floats tbl)"
  have "table ?w ! i = tbl ! i \<or> table ?w ! i = converted (tbl ! i)"
    using partly_mapped_nth [OF assms(3), of converted "\<lambda>p. \<not> aborts p"]
    by (simp add: run_final [OF assms(1)])
  then have a: "table ?w ! i = tbl ! i"
    using assms(4) by (auto simp: raises_converted)
  have inj: "inj_on point_id (set tbl)"
    using assms(1) by (simp add: distinct_map)
  have n: "point_id q \<noteq> point_id (tbl ! i)" if "q \<in> set tbl" and "\<not> raises q" for q
  proof
    assume "point_id q = point_id (tbl ! i)"
    with inj that(1) assms(3) have "q = tbl ! i"
      by (auto dest: inj_onD)
    with that(2) assms(4) show False
      by simp
  qed
  have "point_id (tbl ! i) \<notin> point_id ` set (save_calls ?w)"
  proof
    assume "point_id (tbl ! i) \<in> point_id ` set (save_calls ?w)"
    then obtain q where "q \<in> set (takeWhile (\<lambda>p. \<not> aborts p) tbl)" and r: "\<not> raises q"
      and e: "point_id (tbl ! i) = point_id (converted q)"
      by (auto simp: run_final_saves)
    then have "q \<in> set tbl"
      by (auto dest: set_takeWhileD)
    with n [of q] r e show False
      by (simp add: converted_point_id)
  qed
  with a show ?thesis
    by blast
qed

theorem failed_row_never_saved_witness:
  "distinct (map point_id [row 1 (PyStr ''1.5'') (PyStr ''abc''), row 2 (PyStr ''nan'') (PyStr ''3'')])
   \<and> list_all ascii_row [row 1 (PyStr ''1.5'') (PyStr ''abc''), row 2 (PyStr ''nan'') (PyStr ''3'')]
   \<and> (0::nat) < length [row 1 (PyStr ''1.5'') (PyStr ''abc''), row 2 (PyStr ''nan'') (PyStr ''3'')]
   \<and> raises (row 1 (PyStr ''1.5'') (PyStr ''abc''))
   \<and> py_float ''1.5'' = Inr (Finite (3 / 2))
   \<and> convert_gps_strings_to_floats [row 1 (PyStr ''1.5'') (PyStr ''abc''), row 2 (PyStr ''nan'') (PyStr ''3'')] =
       Inl (IntegrityError,
            \<lparr>table = [row 1 (PyStr ''1.5'') (PyStr ''abc''), row 2 (PyStr ''nan'') (PyStr ''3'')],
             stdout = [''Warning: Could not convert GPS coordinates for point 1''],
             save_calls = []\<rparr>)
   \<and> table (final_world (convert_gps_strings_to_floats
        [row 1 (PyStr ''1.5'') (PyStr ''abc''), row 2 (PyStr ''nan'') (PyStr ''3'')])) ! 0
       = row 1 (PyStr ''1.5'') (PyStr ''abc'')
   \<and> 1 \<notin> point_id ` set (save_calls (final_world (convert_gps_strings_to_floats
        [row 1 (PyStr ''1.5'') (PyStr ''abc''), row 2 (PyStr ''nan'') (PyStr ''3'')])))"
proof -
  let ?tbl = "[row 1 (PyStr ''1.5'') (PyStr ''abc''), row 2 (PyStr ''nan'') (PyStr ''3'')]"
  have d: "distinct (map point_id ?tbl)"
    by simp
  have a: "list_all ascii_row ?tbl"
    by code_simp
  then have a': "\<forall>q\<in>set ?tbl. ascii_row q"
    by (simp only: list_all_iff)
  have l: "0 < length ?tbl"
    by simp
  have r: "raises (row 1 (PyStr ''1.5'') (PyStr ''abc''))"
    by code_simp
  then have r': "raises (?tbl ! 0)"
    by simp
  have f: "py_float ''1.5'' = Inr (Finite (3 / 2))"
    by code_simp
  have e: "convert_gps_strings_to_floats ?tbl =
       Inl (IntegrityError,
            \<lparr>table = ?tbl,
             stdout = [''Warning: Could not convert GPS coordinates for point 1''],
             save_calls = []\<rparr>)"
    by code_simp
  from failed_row_never_saved [OF d a' l r'] d a l r f
  have "distinct (map point_id ?tbl) \<and> list_all ascii_row ?tbl \<and> 0 < length ?tbl
      \<and> raises (row 1 (PyStr ''1.5'') (PyStr ''abc'')) \<and> py_float ''1.5'' = Inr (Finite (3 / 2))
      \<and> table (final_world (convert_gps_strings_to_floats ?tbl)) ! 0 = row 1 (PyStr ''1.5'') (PyStr ''abc'')
      \<and> 1 \<notin> point_id ` set (save_calls (final_world (convert_gps_strings_to_floats ?tbl)))"
    by simp
  with e show ?thesis
    by blast
qed

subsection \<open>What the migration writes\<close>

lemma converted_other_fields:
  "scan (converted p) = scan p \<and> accuracy (converted p) = accuracy p
     \<and> timestamp (converted p) = timestamp p"
  by (auto simp: converted_def convert_fields_def convert_latitude_def convert_longitude_def
      split: sum.splits pyval.splits)

lemma converted_latitude_kept: "is_float (latitude p) \<Longrightarrow> latitude (converted p) = latitude p"
  by (auto simp: is_float_def converted_def convert_fields_def convert_latitude_def
      convert_longitude_def split: sum.splits pyval.splits)

lemma converted_longitude_kept: "is_float (longitude p) \<Longrightarrow> longitude (converted p) = longitude p"
  by (auto simp: is_float_def converted_def convert_fields_def convert_latitude_def
      convert_longitude_def split: sum.splits pyval.splits)

text \<open>
  C4, as the code has it. The migration is not a pure function that leaves persistence
  to its caller: it writes the table itself (\<^verbatim>\<open>save()\<close> on converted rows, so
  every saved object is in the table) and prints to standard output. It is a function
  of the table alone, and its writes are confined. With unique primary keys and ASCII
  text, in the state in which a run ends, returned or left by an exception, the table
  has kept its length and the order of its rows, every row has kept its id, scan,
  accuracy and timestamp, a coordinate that was a number already is as it was, and a
  row on which the conversion raises is as it was.
\<close>

theorem migration_frame:
  assumes "distinct (map point_id tbl)" and "\<forall>q\<in>set tbl. ascii_row q"
  shows "set (save_calls (final_world (convert_gps_strings_to_floats tbl)))
      \<subseteq> set (table (final_world (convert_gps_strings_to_floats tbl)))
    \<and> length (table (final_world (convert_gps_strings_to_floats tbl))) = length tbl
    \<and> (\<forall>i<length tbl.
          point_id (table (final_world (convert_gps_strings_to_floats tbl)) ! i) = point_id (tbl ! i)
          \<and> scan (table (final_world (convert_gps_strings_to_floats tbl)) ! i) = scan (tbl ! i)
          \<and> accuracy (table (final_world (convert_gps_strings_to_floats tbl)) ! i) = accuracy (tbl ! i)
          \<and> timestamp (table (final_world (convert_gps_strings_to_floats tbl)) ! i) = timestamp (tbl ! i)
          \<and> (is_float (latitude (tbl ! i)) \<longrightarrow>
               latitude (table (final_world (convert_gps_strings_to_floats tbl)) ! i) = latitude (tbl ! i))
          \<and> (is_float (longitude (tbl ! i)) \<longrightarrow>
               longitude (table (final_world (convert_gps_strings_to_floats tbl)) ! i) = longitude (tbl ! i))
          \<and> (raises (tbl ! i) \<longrightarrow>
               table (final_world (convert_gps_strings_to_floats tbl)) ! i = tbl ! i))"
proof -
  let ?w = "final_world (convert_gps_strings_to_floats tbl)"
  have t: "table ?w = map converted (takeWhile (\<lambda>p. \<not> aborts p) tbl) @ dropWhile (\<lambda>p. \<not> aborts p) tbl"
    by (rule run_final [OF assms(1)])
  have "set (save_calls ?w) \<subseteq> set (table ?w)"
    unfolding t run_final_saves by auto
  moreover have "length (table ?w) = length tbl"
    unfolding t by (rule partly_mapped_length)
  moreover have "point_id (table ?w ! i) = point_id (tbl ! i)
      \<and> scan (table ?w ! i) = scan (tbl ! i)
      \<and> accuracy (table ?w ! i) = accuracy (tbl ! i)
      \<and> timestamp (table ?w ! i) = timestamp (tbl ! i)
      \<and> (is_float (latitude (tbl ! i)) \<longrightarrow> latitude (table ?w ! i) = latitude (tbl ! i))
      \<and> (is_float (longitude (tbl ! i)) \<longrightarrow> longitude (table ?w ! i) = longitude (tbl ! i))
      \<and> (raises (tbl ! i) \<longrightarrow> table ?w ! i = tbl ! i)"
    if "i < length tbl" for i
  proof -
    have "table ?w ! i = tbl ! i \<or> table ?w ! i = converted (tbl ! i)"
      unfolding t by (rule partly_mapped_nth [OF that])
    then show ?thesis
      by (auto simp: converted_point_id converted_other_fields converted_latitude_kept
          converted_longitude_kept raises_converted)
  qed
  ultimately show ?thesis
    by blast
qed

theorem migration_frame_witness:
  "distinct (map point_id [row 1 (PyStr ''1.5'') (PyFloat (Finite 2)), row 2 (PyStr ''x'') (PyStr ''0'')])
   \<and> list_all ascii_row [row 1 (PyStr ''1.5'') (PyFloat (Finite 2)), row 2 (PyStr ''x'') (PyStr ''0'')]
   \<and> is_float (longitude (row 1 (PyStr ''1.5'') (PyFloat (Finite 2))))
   \<and> raises (row 2 (PyStr ''x'') (PyStr ''0''))
   \<and> length (table (final_world (convert_gps_strings_to_floats
        [row 1 (PyStr ''1.5'') (PyFloat (Finite 2)), row 2 (PyStr ''x'') (PyStr ''0'')]))) = 2
   \<and> point_id (table (final_world (convert_gps_strings_to_floats
        [row 1 (PyStr ''1.5'') (PyFloat (Finite 2)), row 2 (PyStr ''x'') (PyStr ''0'')])) ! 0) = 1
   \<and> longitude (table (final_world (convert_gps_strings_to_floats
        [row 1 (PyStr ''1.5'') (PyFloat (Finite 2)), row 2 (PyStr ''x'') (PyStr ''0'')])) ! 0)
       = PyFloat (Finite 2)
   \<and> table (final_world (convert_gps_strings_to_floats
        [row 1 (PyStr ''1.5'') (PyFloat (Finite 2)), row 2 (PyStr ''x'') (PyStr ''0'')])) ! 1
       = row 2 (PyStr ''x'') (PyStr ''0'')"
proof -
  let ?tbl = "[row 1 (PyStr ''1.5'') (PyFloat (Finite 2)), row 2 (PyStr ''x'') (PyStr ''0'')]"
  let ?w = "final_world (convert_gps_strings_to_floats ?tbl)"
  have d: "distinct (map point_id ?tbl)"
    by simp
  have a: "list_all ascii_row ?tbl"
    by code_simp
  then have a': "\<forall>q\<in>set ?tbl. ascii_row q"
    by (simp only: list_all_iff)
  have f: "is_float (longitude (row 1 (PyStr ''1.5'') (PyFloat (Finite 2))))"
    by (simp add: is_float_def)
  have r: "raises (row 2 (PyStr ''x'') (PyStr ''0''))"
    by code_simp
  from migration_frame [OF d a']
  have l: "length (table ?w) = length ?tbl"
    and x: "\<forall>i<length ?tbl.
          point_id (table ?w ! i) = point_id (?tbl ! i)
          \<and> scan (table ?w ! i) = scan (?tbl ! i)
          \<and> accuracy (table ?w ! i) = accuracy (?tbl ! i)
          \<and> timestamp (table ?w ! i) = timestamp (?tbl ! i)
          \<and> (is_float (latitude (?tbl ! i)) \<longrightarrow> latitude (table ?w ! i) = latitude (?tbl ! i))
          \<and> (is_float (longitude (?tbl ! i)) \<longrightarrow> longitude (table ?w ! i) = longitude (?tbl ! i))
          \<and> (raises (?tbl ! i) \<longrightarrow> table ?w ! i = ?tbl ! i)"
    by blast+
  from x [rule_format, of 0] f
  have z: "point_id (table ?w ! 0) = 1 \<and> longitude (table ?w ! 0) = PyFloat (Finite 2)"
    by simp
  from x [rule_format, of 1] r
  have o: "table ?w ! 1 = row 2 (PyStr ''x'') (PyStr ''0'')"
    by simp
  from l have "length (table ?w) = 2"
    by simp
  with z o d a f r show ?thesis
    by blast
qed

text \<open>
  A table with one row that converts and one that does not: after the run the table
  differs from the table before, and a line has been printed.
\<close>

theorem migration_writes_table_and_stdout:
  "convert_gps_strings_to_floats
     [row 1 (PyStr ''1.5'') (PyStr ''2.5''), row 2 (PyStr ''x'') (PyStr ''0'')] =
     Inr \<lparr>table = [row 1 (PyFloat (Finite (3 / 2))) (PyFloat (Finite (5 / 2))),
                   row 2 (PyStr ''x'') (PyStr ''0'')],
          stdout = [''Warning: Could not convert GPS coordinates for point 2''],
          save_calls = [row 1 (PyFloat (Finite (3 / 2))) (PyFloat (Finite (5 / 2)))]\<rparr>
   \<and> [row 1 (PyFloat (Finite (3 / 2))) (PyFloat (Finite (5 / 2))), row 2 (PyStr ''x'') (PyStr ''0'')]
       \<noteq> [row 1 (PyStr ''1.5'') (PyStr ''2.5''), row 2 (PyStr ''x'') (PyStr ''0'')]"
  by code_simp

subsection \<open>The strings that \<^verbatim>\<open>float\<close> accepts\<close>

lemma not_space_simps: "\<not> is_space (CHR ''_'')" "\<not> is_space (CHR ''.'')"
    "\<not> is_space (CHR ''+'')" "\<not> is_space (CHR ''-'')"
  by (simp_all add: is_space_def)

lemma not_digit_simps: "\<not> is_digit (CHR ''.'')" "\<not> is_digit (CHR ''e'')" "\<not> is_digit (CHR ''E'')"
    "\<not> is_digit (CHR ''+'')" "\<not> is_digit (CHR ''-'')" "\<not> is_digit (CHR ''_'')"
  by (simp_all add: is_digit_def)

lemma digit_not_special:
  "is_digit c \<Longrightarrow> c \<noteq> CHR ''_'' \<and> c \<noteq> CHR ''.'' \<and> \<not> is_space c
     \<and> c \<noteq> CHR ''+'' \<and> c \<noteq> CHR ''-''"
  by (auto simp: is_digit_def is_space_def)

lemma space_not_digit: "is_space c \<Longrightarrow> \<not> is_digit c"
  by (auto simp: is_digit_def is_space_def)

lemma check_underscores_none:
  "prev \<noteq> CHR ''_'' \<Longrightarrow> CHR ''_'' \<notin> set s \<Longrightarrow> check_underscores prev s = Some s"
  by (induction s arbitrary: prev) auto

lemma check_underscores_filter:
  "check_underscores prev s = Some t \<Longrightarrow> t = filter (\<lambda>c. c \<noteq> CHR ''_'') s"
  by (induction s arbitrary: prev t) (auto split: if_splits)

lemma strip_decomp:
  "\<exists>a b. s = a @ strip s @ b \<and> (\<forall>c\<in>set a. is_space c) \<and> (\<forall>c\<in>set b. is_space c)"
proof -
  let ?t = "dropWhile is_space s"
  have "rev ?t = takeWhile is_space (rev ?t) @ dropWhile is_space (rev ?t)"
    by simp
  then have "?t = rev (dropWhile is_space (rev ?t)) @ rev (takeWhile is_space (rev ?t))"
    by (metis rev_append rev_rev_ident)
  then have "s = takeWhile is_space s @ strip s @ rev (takeWhile is_space (rev ?t))"
    by (metis strip_def takeWhile_dropWhile_id)
  moreover have "\<forall>c\<in>set (takeWhile is_space s). is_space c"
    by (auto dest: set_takeWhileD)
  moreover have "\<forall>c\<in>set (rev (takeWhile is_space (rev ?t))). is_space c"
    by (auto dest: set_takeWhileD)
  ultimately show ?thesis
    by blast
qed

lemma strip_all_space:
  assumes "\<forall>c\<in>set s. is_space c"
  shows "strip s = []"
  using assms by (auto simp: strip_def dest: set_dropWhileD)

lemma parse_sign_decomp:
  "parse_sign s = (neg, u) \<Longrightarrow> s = u \<or> s = CHR ''-'' # u \<or> s = CHR ''+'' # u"
  by (auto simp: parse_sign_def split: list.splits if_splits)


lemma filter_none: "\<forall>c\<in>set xs. \<not> P c \<Longrightarrow> filter P xs = []"
  by (induction xs) auto

lemma dots_digits: "\<forall>c\<in>set xs. is_digit c \<Longrightarrow> filter (\<lambda>c. c = CHR ''.'') xs = []"
  by (rule filter_none) (auto dest: digit_not_special)

lemma dots_takeWhile_digits: "filter (\<lambda>c. c = CHR ''.'') (takeWhile is_digit xs) = []"
  by (rule dots_digits) (auto dest: set_takeWhileD)

lemma parse_exponent_dots:
  "parse_exponent s = (ex, []) \<Longrightarrow> filter (\<lambda>c. c = CHR ''.'') s = []"
proof (cases s)
  case Nil
  then show ?thesis by simp
next
  case (Cons c cs)
  assume a: "parse_exponent s = (ex, [])"
  obtain neg r where p: "parse_sign cs = (neg, r)"
    by (cases "parse_sign cs")
  from a Cons p have e: "c = CHR ''e'' \<or> c = CHR ''E''" and d: "dropWhile is_digit r = []"
    by (auto simp: parse_exponent_def Let_def split: if_splits)
  from d have "\<forall>c\<in>set r. is_digit c"
    by (simp add: dropWhile_eq_Nil_conv)
  then have "filter (\<lambda>c. c = CHR ''.'') r = []"
    by (rule dots_digits)
  moreover from parse_sign_decomp [OF p] have "cs = r \<or> cs = CHR ''-'' # r \<or> cs = CHR ''+'' # r" .
  ultimately have "filter (\<lambda>c. c = CHR ''.'') cs = []"
    by auto
  with e Cons show ?thesis
    by auto
qed

lemma parse_decimal_dots:
  assumes "parse_decimal u = Some me"
  shows "length (filter (\<lambda>c. c = CHR ''.'') u) \<le> 1"
proof -
  let ?ip = "takeWhile is_digit u" and ?r1 = "dropWhile is_digit u"
  have u: "u = ?ip @ ?r1"
    by simp
  have i: "filter (\<lambda>c. c = CHR ''.'') ?ip = []"
    by (rule dots_takeWhile_digits)
  have "length (filter (\<lambda>c. c = CHR ''.'') ?r1) \<le> 1"
  proof (cases ?r1)
    case Nil
    show ?thesis
      unfolding Nil by simp
  next
    case (Cons c cs)
    show ?thesis
    proof (cases "c = CHR ''.''")
      case True
      obtain ex r3 where pe: "parse_exponent (dropWhile is_digit cs) = (ex, r3)"
        by (cases "parse_exponent (dropWhile is_digit cs)")
      with assms Cons True have "r3 = []"
        by (auto simp: parse_decimal_def Let_def split: if_splits)
      with pe have "filter (\<lambda>c. c = CHR ''.'') (dropWhile is_digit cs) = []"
        by (auto dest: parse_exponent_dots)
      moreover have "filter (\<lambda>c. c = CHR ''.'') (takeWhile is_digit cs) = []"
        by (rule dots_takeWhile_digits)
      ultimately have "filter (\<lambda>c. c = CHR ''.'') (takeWhile is_digit cs @ dropWhile is_digit cs) = []"
        by (simp del: takeWhile_dropWhile_id)
      then have "filter (\<lambda>c. c = CHR ''.'') cs = []"
        by simp
      with Cons True show ?thesis
        by simp
    next
      case False
      obtain ex r3 where pe: "parse_exponent ?r1 = (ex, r3)"
        by (cases "parse_exponent ?r1")
      with assms Cons False have "r3 = []"
        by (auto simp: parse_decimal_def Let_def split: if_splits)
      with pe have "filter (\<lambda>c. c = CHR ''.'') ?r1 = []"
        by (auto dest: parse_exponent_dots)
      then show ?thesis
        by simp
    qed
  qed
  moreover have "filter (\<lambda>c. c = CHR ''.'') u
      = filter (\<lambda>c. c = CHR ''.'') ?ip @ filter (\<lambda>c. c = CHR ''.'') ?r1"
    by (metis filter_append u)
  ultimately show ?thesis
    using i by simp
qed

lemma to_lower_dot: "to_lower (CHR ''.'') = CHR ''.''"
  by code_simp

lemma parse_inf_or_nan_dots:
  assumes "parse_inf_or_nan neg u = Some x"
  shows "filter (\<lambda>c. c = CHR ''.'') u = []"
proof -
  from assms have "map to_lower u = ''inf'' \<or> map to_lower u = ''infinity'' \<or> map to_lower u = ''nan''"
    by (auto simp: parse_inf_or_nan_def Let_def split: if_splits)
  then have "set (map to_lower u) \<subseteq> set ''infinityan''"
    by auto
  then have "to_lower (CHR ''.'') \<notin> set (map to_lower u)"
    unfolding to_lower_dot by auto
  then have "CHR ''.'' \<notin> set u"
    by auto
  then show ?thesis
    by (auto intro: filter_none)
qed


lemma float_from_string_inner_cases:
  assumes "float_from_string_inner t = Inr x"
  obtains neg u where "parse_sign (strip t) = (neg, u)"
    and "(\<exists>me. parse_decimal u = Some me) \<or> (parse_decimal u = None \<and> parse_inf_or_nan neg u = Some x)"
proof -
  obtain neg u where p: "parse_sign (strip t) = (neg, u)"
    by (cases "parse_sign (strip t)")
  with assms have "(\<exists>me. parse_decimal u = Some me)
      \<or> (parse_decimal u = None \<and> parse_inf_or_nan neg u = Some x)"
    by (auto simp: float_from_string_inner_def split: option.splits)
  with p that show ?thesis
    by blast
qed

lemma py_float_cases:
  assumes "py_float s = Inr x"
  obtains t where "check_underscores (CHR 0x00) s = Some t" and "float_from_string_inner t = Inr x"
  using assms by (auto simp: py_float_def split: option.splits)

lemma float_from_string_inner_dots:
  assumes "float_from_string_inner t = Inr x"
  shows "length (filter (\<lambda>c. c = CHR ''.'') t) \<le> 1"
proof -
  from assms obtain neg u where p: "parse_sign (strip t) = (neg, u)"
    and d: "(\<exists>me. parse_decimal u = Some me)
      \<or> (parse_decimal u = None \<and> parse_inf_or_nan neg u = Some x)"
    by (rule float_from_string_inner_cases)
  from d have u: "length (filter (\<lambda>c. c = CHR ''.'') u) \<le> 1"
    by (auto dest: parse_decimal_dots parse_inf_or_nan_dots)
  from parse_sign_decomp [OF p] u
  have st: "length (filter (\<lambda>c. c = CHR ''.'') (strip t)) \<le> 1"
    by auto
  from strip_decomp [of t] obtain a b where t: "t = a @ strip t @ b"
    and a: "\<forall>c\<in>set a. is_space c" and b: "\<forall>c\<in>set b. is_space c"
    by blast
  have "filter (\<lambda>c. c = CHR ''.'') a = []" "filter (\<lambda>c. c = CHR ''.'') b = []"
    using a b not_space_simps by (auto intro!: filter_none)
  then have "filter (\<lambda>c. c = CHR ''.'') (a @ strip t @ b) = filter (\<lambda>c. c = CHR ''.'') (strip t)"
    by simp
  with t st show ?thesis
    by metis
qed

lemma py_float_dots:
  assumes "py_float s = Inr x"
  shows "count_list s (CHR ''.'') \<le> 1"
proof -
  from assms obtain t where c: "check_underscores (CHR 0x00) s = Some t"
    and f: "float_from_string_inner t = Inr x"
    by (rule py_float_cases)
  from check_underscores_filter [OF c]
  have "filter (\<lambda>c. c = CHR ''.'') t = filter (\<lambda>c. c = CHR ''.'') s"
    by (auto intro: filter_cong)
  with float_from_string_inner_dots [OF f]
  have "length (filter (\<lambda>c. c = CHR ''.'') s) \<le> 1"
    by simp
  moreover have "filter ((=) (CHR ''.'')) s = filter (\<lambda>c. c = CHR ''.'') s"
    by (auto intro: filter_cong)
  ultimately show ?thesis
    by (simp add: count_list_eq_length_filter)
qed

lemma parse_decimal_digit:
  assumes "parse_decimal u = Some me"
  shows "\<exists>c\<in>set u. is_digit c"
proof -
  let ?ip = "takeWhile is_digit u" and ?r1 = "dropWhile is_digit u"
  show ?thesis
  proof (cases "?ip = []")
    case False
    then obtain c where "c \<in> set ?ip"
      by (cases ?ip) auto
    then have "c \<in> set u \<and> is_digit c"
      by (auto dest: set_takeWhileD)
    then show ?thesis
      by blast
  next
    case True
    with assms obtain cs where r: "?r1 = CHR ''.'' # cs" and f: "takeWhile is_digit cs \<noteq> []"
      by (auto simp: parse_decimal_def Let_def split: list.splits if_splits prod.splits)
    from f obtain c where "c \<in> set (takeWhile is_digit cs)"
      by (cases "takeWhile is_digit cs") auto
    then have "c \<in> set cs" and d: "is_digit c"
      by (auto dest: set_takeWhileD)
    with r have "c \<in> set ?r1"
      by simp
    then have "c \<in> set u"
      by (rule set_dropWhileD)
    with d show ?thesis
      by blast
  qed
qed

lemma py_float_no_digit:
  assumes "\<forall>c\<in>set s. \<not> is_digit c" and "py_float s = Inr x"
  shows "x = PosInf \<or> x = NegInf \<or> x = NaN"
proof -
  from assms(2) obtain t where c: "check_underscores (CHR 0x00) s = Some t"
    and f: "float_from_string_inner t = Inr x"
    by (rule py_float_cases)
  from f obtain neg u where p: "parse_sign (strip t) = (neg, u)"
    and d: "(\<exists>me. parse_decimal u = Some me)
      \<or> (parse_decimal u = None \<and> parse_inf_or_nan neg u = Some x)"
    by (rule float_from_string_inner_cases)
  from strip_decomp [of t] obtain a b where "t = a @ strip t @ b"
    by blast
  then have "set (strip t) \<subseteq> set t"
    by (metis Un_upper1 Un_upper2 set_append subset_trans)
  moreover from parse_sign_decomp [OF p] have "set u \<subseteq> set (strip t)"
    by auto
  moreover from check_underscores_filter [OF c] have "set t \<subseteq> set s"
    by auto
  ultimately have "\<forall>c\<in>set u. \<not> is_digit c"
    using assms(1) by blast
  with d have "parse_inf_or_nan neg u = Some x"
    by (auto dest: parse_decimal_digit)
  then show ?thesis
    by (auto simp: parse_inf_or_nan_def Let_def split: if_splits)
qed

lemma py_float_all_space:
  assumes "\<forall>c\<in>set s. is_space c"
  shows "py_float s = Inl ValueError"
proof -
  have "CHR ''_'' \<notin> set s"
    using assms not_space_simps by blast
  then have c: "check_underscores (CHR 0x00) s = Some s"
    by (simp add: check_underscores_none)
  have "strip s = []"
    using assms by (rule strip_all_space)
  then have "float_from_string_inner s = Inl ValueError"
    by (simp add: float_from_string_inner_def parse_sign_def parse_decimal_def
        parse_inf_or_nan_def parse_exponent_def)
  with c show ?thesis
    by (simp add: py_float_def)
qed


lemma spec_decimal_form_parse_decimal:
  assumes "spec_decimal_form s" and "parse_sign (strip s) = (neg, u)"
  shows "\<exists>me. parse_decimal u = Some me"
proof (cases "dropWhile is_digit u")
  case Nil
  with assms have "takeWhile is_digit u \<noteq> []"
    by (simp add: spec_decimal_form_def Let_def)
  with Nil show ?thesis
    by (simp add: parse_decimal_def Let_def parse_exponent_def del: dropWhile_eq_Nil_conv)
next
  case (Cons c fp)
  with assms have c: "c = CHR ''.''" and f: "\<forall>x\<in>set fp. is_digit x"
    and n: "takeWhile is_digit u \<noteq> [] \<or> fp \<noteq> []"
    by (simp_all add: spec_decimal_form_def Let_def list_all_iff)
  from f have t: "takeWhile is_digit fp = fp" and d: "dropWhile is_digit fp = []"
    by simp_all
  from Cons c n show ?thesis
    by (simp add: parse_decimal_def Let_def parse_exponent_def t d del: dropWhile_eq_Nil_conv)
qed

lemma spec_decimal_form_no_underscore:
  assumes "spec_decimal_form s"
  shows "CHR ''_'' \<notin> set s"
proof -
  obtain neg u where p: "parse_sign (strip s) = (neg, u)"
    by (cases "parse_sign (strip s)")
  have ip: "CHR ''_'' \<notin> set (takeWhile is_digit u)"
    by (auto dest: set_takeWhileD digit_not_special)
  have "CHR ''_'' \<notin> set (dropWhile is_digit u)"
  proof (cases "dropWhile is_digit u")
    case Nil
    show ?thesis
      unfolding Nil by simp
  next
    case (Cons c fp)
    with assms p have "c = CHR ''.''" and "\<forall>x\<in>set fp. is_digit x"
      by (simp_all add: spec_decimal_form_def Let_def list_all_iff)
    then show ?thesis
      unfolding Cons by (auto dest: digit_not_special)
  qed
  with ip have "CHR ''_'' \<notin> set (takeWhile is_digit u @ dropWhile is_digit u)"
    by (simp del: takeWhile_dropWhile_id)
  then have "CHR ''_'' \<notin> set u"
    by simp
  with parse_sign_decomp [OF p] have st: "CHR ''_'' \<notin> set (strip s)"
    by auto
  from strip_decomp [of s] obtain a b where s: "s = a @ strip s @ b"
    and a: "\<forall>c\<in>set a. is_space c" and b: "\<forall>c\<in>set b. is_space c"
    by blast
  from a b not_space_simps have "CHR ''_'' \<notin> set a" and "CHR ''_'' \<notin> set b"
    by blast+
  with st have "CHR ''_'' \<notin> set (a @ strip s @ b)"
    by simp
  with s show ?thesis
    by metis
qed

lemma spec_decimal_form_accepted:
  assumes "spec_decimal_form s"
  shows "\<exists>x. py_float s = Inr x"
proof -
  obtain neg u where p: "parse_sign (strip s) = (neg, u)"
    by (cases "parse_sign (strip s)")
  from spec_decimal_form_parse_decimal [OF assms p]
  obtain me where "parse_decimal u = Some me"
    by blast
  with p have "\<exists>x. float_from_string_inner s = Inr x"
    by (cases me) (simp add: float_from_string_inner_def)
  moreover have "check_underscores (CHR 0x00) s = Some s"
    using spec_decimal_form_no_underscore [OF assms] by (simp add: check_underscores_none)
  ultimately show ?thesis
    by (simp add: py_float_def)
qed

lemma digit_not_underscore: "is_digit c \<Longrightarrow> c \<noteq> CHR ''_''"
  by (auto simp: is_digit_def)

lemma check_underscores_defined:
  "(\<exists>t. check_underscores prev s = Some t) \<longleftrightarrow>
     (prev = CHR ''_'' \<longrightarrow> s \<noteq> [] \<and> is_digit (hd s))
     \<and> (\<forall>x y. s = x @ CHR ''_'' # y \<longrightarrow> is_digit (last (prev # x)) \<and> y \<noteq> [] \<and> is_digit (hd y))"
proof (induction s arbitrary: prev)
  case Nil
  show ?case by simp
next
  case (Cons c cs)
  show ?case
  proof (cases "c = CHR ''_''")
    case True
    have split: "(\<forall>x y. c # cs = x @ CHR ''_'' # y \<longrightarrow>
          is_digit (last (prev # x)) \<and> y \<noteq> [] \<and> is_digit (hd y))
        \<longleftrightarrow> (is_digit prev \<and> cs \<noteq> [] \<and> is_digit (hd cs))
          \<and> (\<forall>x y. cs = x @ CHR ''_'' # y \<longrightarrow> is_digit (last (c # x)) \<and> y \<noteq> [] \<and> is_digit (hd y))"
      (is "?L \<longleftrightarrow> ?R")
    proof
      assume l: ?L
      from l [rule_format, of "[]" cs] True have "is_digit prev \<and> cs \<noteq> [] \<and> is_digit (hd cs)"
        by simp
      moreover have "is_digit (last (c # x)) \<and> y \<noteq> [] \<and> is_digit (hd y)"
        if "cs = x @ CHR ''_'' # y" for x y
        using l [rule_format, of "c # x" y] that by simp
      ultimately show ?R by blast
    next
      assume r: ?R
      show ?L
      proof (intro allI impI)
        fix x y
        assume e: "c # cs = x @ CHR ''_'' # y"
        show "is_digit (last (prev # x)) \<and> y \<noteq> [] \<and> is_digit (hd y)"
        proof (cases x)
          case Nil
          with e r show ?thesis by auto
        next
          case (Cons a x')
          with e have "cs = x' @ CHR ''_'' # y" and "a = c"
            by simp_all
          with r Cons show ?thesis by auto
        qed
      qed
    qed
    from True have "(\<exists>t. check_underscores prev (c # cs) = Some t)
        \<longleftrightarrow> is_digit prev \<and> (\<exists>t. check_underscores c cs = Some t)"
      by auto
    also have "\<dots> \<longleftrightarrow> is_digit prev
        \<and> (c = CHR ''_'' \<longrightarrow> cs \<noteq> [] \<and> is_digit (hd cs))
        \<and> (\<forall>x y. cs = x @ CHR ''_'' # y \<longrightarrow> is_digit (last (c # x)) \<and> y \<noteq> [] \<and> is_digit (hd y))"
      by (simp only: Cons.IH)
    also have "\<dots> \<longleftrightarrow> (prev = CHR ''_'' \<longrightarrow> c # cs \<noteq> [] \<and> is_digit (hd (c # cs)))
        \<and> (\<forall>x y. c # cs = x @ CHR ''_'' # y \<longrightarrow>
              is_digit (last (prev # x)) \<and> y \<noteq> [] \<and> is_digit (hd y))"
      unfolding split using True by (auto dest: digit_not_underscore)
    finally show ?thesis .
  next
    case False
    have split: "(\<forall>x y. c # cs = x @ CHR ''_'' # y \<longrightarrow>
          is_digit (last (prev # x)) \<and> y \<noteq> [] \<and> is_digit (hd y))
        \<longleftrightarrow> (\<forall>x y. cs = x @ CHR ''_'' # y \<longrightarrow> is_digit (last (c # x)) \<and> y \<noteq> [] \<and> is_digit (hd y))"
      (is "?L \<longleftrightarrow> ?R")
    proof
      assume l: ?L
      show ?R
      proof (intro allI impI)
        fix x y
        assume "cs = x @ CHR ''_'' # y"
        with l [rule_format, of "c # x" y]
        show "is_digit (last (c # x)) \<and> y \<noteq> [] \<and> is_digit (hd y)"
          by simp
      qed
    next
      assume r: ?R
      show ?L
      proof (intro allI impI)
        fix x y
        assume e: "c # cs = x @ CHR ''_'' # y"
        show "is_digit (last (prev # x)) \<and> y \<noteq> [] \<and> is_digit (hd y)"
        proof (cases x)
          case Nil
          with e False show ?thesis by simp
        next
          case (Cons a x')
          with e have "cs = x' @ CHR ''_'' # y" and "a = c"
            by simp_all
          with r Cons show ?thesis by auto
        qed
      qed
    qed
    from False have "(\<exists>t. check_underscores prev (c # cs) = Some t)
        \<longleftrightarrow> (prev = CHR ''_'' \<longrightarrow> is_digit c) \<and> (\<exists>t. check_underscores c cs = Some t)"
      by auto
    also have "\<dots> \<longleftrightarrow> (prev = CHR ''_'' \<longrightarrow> is_digit c)
        \<and> (c = CHR ''_'' \<longrightarrow> cs \<noteq> [] \<and> is_digit (hd cs))
        \<and> (\<forall>x y. cs = x @ CHR ''_'' # y \<longrightarrow> is_digit (last (c # x)) \<and> y \<noteq> [] \<and> is_digit (hd y))"
      by (simp only: Cons.IH)
    also have "\<dots> \<longleftrightarrow> (prev = CHR ''_'' \<longrightarrow> c # cs \<noteq> [] \<and> is_digit (hd (c # cs)))
        \<and> (\<forall>x y. c # cs = x @ CHR ''_'' # y \<longrightarrow>
              is_digit (last (prev # x)) \<and> y \<noteq> [] \<and> is_digit (hd y))"
      unfolding split using False by auto
    finally show ?thesis .
  qed
qed

lemma check_underscores_iff:
  "check_underscores (CHR 0x00) s = Some t \<longleftrightarrow>
     underscores_between_digits s \<and> t = filter (\<lambda>c. c \<noteq> CHR ''_'') s"
proof -
  have z: "\<not> is_digit (CHR 0x00)" "CHR 0x00 \<noteq> CHR ''_''"
    by (simp_all add: is_digit_def)
  have "(\<exists>t. check_underscores (CHR 0x00) s = Some t) \<longleftrightarrow> underscores_between_digits s"
    unfolding check_underscores_defined underscores_between_digits_def
  proof (intro iffI allI impI conjI)
    fix x y
    assume a: "(CHR 0x00 = CHR ''_'' \<longrightarrow> s \<noteq> [] \<and> is_digit (hd s)) \<and>
      (\<forall>x y. s = x @ CHR ''_'' # y \<longrightarrow> is_digit (last (CHR 0x00 # x)) \<and> y \<noteq> [] \<and> is_digit (hd y))"
      and e: "s = x @ CHR ''_'' # y"
    from a e have d: "is_digit (last (CHR 0x00 # x))" and y: "y \<noteq> [] \<and> is_digit (hd y)"
      by blast+
    from d z show "x \<noteq> []" by (cases x) auto
    with d show "is_digit (last x)" by simp
    from y show "y \<noteq> []" "is_digit (hd y)" by simp_all
  next
    assume "CHR 0x00 = CHR ''_''"
    with z show "s \<noteq> []" "is_digit (hd s)" by simp_all
  next
    fix x y
    assume a: "\<forall>x y. s = x @ CHR ''_'' # y \<longrightarrow> x \<noteq> [] \<and> is_digit (last x) \<and> y \<noteq> [] \<and> is_digit (hd y)"
      and e: "s = x @ CHR ''_'' # y"
    from a e have "x \<noteq> [] \<and> is_digit (last x) \<and> y \<noteq> [] \<and> is_digit (hd y)"
      by blast
    then show "is_digit (last (CHR 0x00 # x))" "y \<noteq> []" "is_digit (hd y)"
      by simp_all
  qed
  then show ?thesis
    using check_underscores_filter [of "CHR 0x00" s] by auto
qed

lemma to_lower_fixed:
  "list_all (\<lambda>c. to_lower c = c)
     [CHR 0x20, CHR 0x09, CHR 0x0A, CHR 0x0B, CHR 0x0C, CHR 0x0D, CHR ''+'', CHR ''-'', CHR ''.'']"
  by code_simp

lemma to_lower_letter:
  assumes "to_lower c \<in> set ''infinityan''"
  shows "\<not> is_space c \<and> c \<noteq> CHR ''+'' \<and> c \<noteq> CHR ''-'' \<and> c \<noteq> CHR ''.''"
proof -
  have "to_lower c = c" if "is_space c \<or> c = CHR ''+'' \<or> c = CHR ''-'' \<or> c = CHR ''.''"
    using that to_lower_fixed by (auto simp: is_space_def)
  with assms show ?thesis
    by (auto simp: is_space_def)
qed

lemma span_none: "r = [] \<or> \<not> P (hd r) \<Longrightarrow> takeWhile P r = [] \<and> dropWhile P r = r"
  by (cases r) auto

lemma span_digits:
  "list_all is_digit ip \<Longrightarrow> r = [] \<or> \<not> is_digit (hd r)
     \<Longrightarrow> takeWhile is_digit (ip @ r) = ip \<and> dropWhile is_digit (ip @ r) = r"
  by (induction ip) (simp_all add: span_none)

lemma strip_exact:
  assumes "list_all is_space a" and "list_all is_space b"
    and "m \<noteq> []" and "\<not> is_space (hd m)" and "\<not> is_space (last m)"
  shows "strip (a @ m @ b) = m"
proof -
  from assms(1) have "dropWhile is_space (a @ m @ b) = dropWhile is_space (m @ b)"
    by (simp add: list_all_iff)
  also from assms(3,4) have "\<dots> = m @ b"
    by (cases m) auto
  finally have d: "dropWhile is_space (a @ m @ b) = m @ b" .
  have "dropWhile is_space (rev b @ rev m) = dropWhile is_space (rev m)"
    by (rule dropWhile_append2) (use assms(2) in \<open>simp add: list_all_iff\<close>)
  also from assms(3,5) have "\<dots> = rev m"
    by (cases "rev m") (auto simp: last_rev [symmetric] simp del: last_rev)
  finally show ?thesis
    by (simp add: strip_def d)
qed

lemma parse_sign_exact:
  assumes "sign_text sg" and "n = [] \<or> (hd n \<noteq> CHR ''+'' \<and> hd n \<noteq> CHR ''-'')"
  shows "\<exists>neg. parse_sign (sg @ n) = (neg, n)"
  using assms by (cases n) (auto simp: sign_text_def parse_sign_def)

lemma parse_sign_text:
  "parse_sign s = (neg, u) \<Longrightarrow> \<exists>sg. s = sg @ u \<and> sign_text sg"
  by (auto simp: parse_sign_def sign_text_def split: list.splits if_splits)

lemma exponent_accepted:
  assumes "exponent_text ex"
  shows "\<exists>v. parse_exponent ex = (v, [])"
proof -
  from assms obtain e sg ds where ex: "ex = e # sg @ ds" and e: "e = CHR ''e'' \<or> e = CHR ''E''"
    and sg: "sign_text sg" and ds: "ds \<noteq> []" "list_all is_digit ds"
    by (auto simp: exponent_text_def digit_text_def)
  from ds have "hd ds \<noteq> CHR ''+'' \<and> hd ds \<noteq> CHR ''-''"
    by (cases ds) (auto dest: digit_not_special)
  with parse_sign_exact [OF sg, of ds] obtain neg where p: "parse_sign (sg @ ds) = (neg, ds)"
    by blast
  from ds(2) have t: "takeWhile is_digit ds = ds" and d: "dropWhile is_digit ds = []"
    by (simp_all add: list_all_iff)
  from ex e ds(1) show ?thesis
    by (auto simp: parse_exponent_def p t d)
qed

lemma exponent_parsed:
  assumes "parse_exponent r = (v, [])"
  shows "r = [] \<or> exponent_text r"
proof (cases r)
  case Nil
  then show ?thesis by simp
next
  case (Cons c cs)
  obtain neg r' where p: "parse_sign cs = (neg, r')"
    by (cases "parse_sign cs")
  from assms Cons p have e: "c = CHR ''e'' \<or> c = CHR ''E''"
    and t: "takeWhile is_digit r' \<noteq> []" and d: "dropWhile is_digit r' = []"
    by (auto simp: parse_exponent_def Let_def split: if_splits)
  from t have "r' \<noteq> []"
    by auto
  moreover from d have "list_all is_digit r'"
    by (simp add: list_all_iff)
  moreover from parse_sign_text [OF p] obtain sg where "cs = sg @ r'" and "sign_text sg"
    by blast
  ultimately have "exponent_text (c # cs)"
    using e by (auto simp: exponent_text_def digit_text_def)
  with Cons show ?thesis
    by simp
qed

lemma exponent_head: "exponent_text ex \<Longrightarrow> ex \<noteq> [] \<and> \<not> is_digit (hd ex) \<and> hd ex \<noteq> CHR ''.''"
  by (auto simp: exponent_text_def not_digit_simps)

lemma number_accepted:
  assumes "number_text n"
  shows "\<exists>me. parse_decimal n = Some me"
proof -
  from assms obtain ip fp ex where
    c: "n = ip @ ex \<and> digit_text ip
        \<or> n = ip @ ''.'' @ fp @ ex \<and> list_all is_digit ip \<and> list_all is_digit fp \<and> (ip \<noteq> [] \<or> fp \<noteq> [])"
    and ex: "ex = [] \<or> exponent_text ex"
    by (auto simp: number_text_def)
  from ex have h: "ex = [] \<or> \<not> is_digit (hd ex)"
    by (auto dest: exponent_head)
  from ex obtain v where pe: "parse_exponent ex = (v, [])"
    by (auto simp: parse_exponent_def dest: exponent_accepted)
  from c show ?thesis
  proof
    assume a: "n = ip @ ex \<and> digit_text ip"
    then have ip: "ip \<noteq> []" "list_all is_digit ip"
      by (simp_all add: digit_text_def)
    from span_digits [OF ip(2) h] a
    have t: "takeWhile is_digit n = ip" and d: "dropWhile is_digit n = ex"
      by simp_all
    from ex have "ex = [] \<or> (\<exists>c cs. ex = c # cs \<and> c \<noteq> CHR ''.'')"
      by (cases ex) (auto dest: exponent_head)
    then show ?thesis
      using ip(1) pe by (auto simp: parse_decimal_def t d)
  next
    assume a: "n = ip @ ''.'' @ fp @ ex \<and> list_all is_digit ip \<and> list_all is_digit fp
        \<and> (ip \<noteq> [] \<or> fp \<noteq> [])"
    then have n: "n = ip @ CHR ''.'' # fp @ ex"
      by simp
    have "takeWhile is_digit (ip @ CHR ''.'' # fp @ ex) = ip
        \<and> dropWhile is_digit (ip @ CHR ''.'' # fp @ ex) = CHR ''.'' # fp @ ex"
      by (rule span_digits) (use a in \<open>simp_all add: not_digit_simps\<close>)
    then have t: "takeWhile is_digit (ip @ CHR ''.'' # fp @ ex) = ip"
      and d: "dropWhile is_digit (ip @ CHR ''.'' # fp @ ex) = CHR ''.'' # fp @ ex"
      by simp_all
    from span_digits [OF _ h, of fp] a
    have t2: "takeWhile is_digit (fp @ ex) = fp" and d2: "dropWhile is_digit (fp @ ex) = ex"
      by simp_all
    from a have "ip \<noteq> [] \<or> fp \<noteq> []"
      by simp
    then show ?thesis
      unfolding n by (auto simp: parse_decimal_def t d t2 d2 pe)
  qed
qed

lemma number_parsed:
  assumes "parse_decimal n = Some me"
  shows "number_text n"
proof -
  let ?ip = "takeWhile is_digit n" and ?r1 = "dropWhile is_digit n"
  have n: "n = ?ip @ ?r1"
    by simp
  have ip: "list_all is_digit ?ip"
    by (auto simp: list_all_iff dest: set_takeWhileD)
  show ?thesis
  proof (cases ?r1)
    case Nil
    with assms have "?ip \<noteq> []"
      by (auto simp: parse_decimal_def Let_def split: if_splits prod.splits
          simp del: dropWhile_eq_Nil_conv)
    with ip have "digit_text ?ip"
      by (simp add: digit_text_def)
    moreover from n Nil have "n = ?ip @ []"
      by (simp del: takeWhile_dropWhile_id dropWhile_eq_Nil_conv)
    ultimately show ?thesis
      unfolding number_text_def by blast
  next
    case (Cons c cs)
    show ?thesis
    proof (cases "c = CHR ''.''")
      case True
      let ?fp = "takeWhile is_digit cs" and ?r2 = "dropWhile is_digit cs"
      obtain v r3 where pe: "parse_exponent ?r2 = (v, r3)"
        by (cases "parse_exponent ?r2")
      from assms Cons True pe have r3: "r3 = []" and ne: "?ip \<noteq> [] \<or> ?fp \<noteq> []"
        by (auto simp: parse_decimal_def Let_def split: if_splits)
      from pe r3 have ex: "?r2 = [] \<or> exponent_text ?r2"
        by (auto dest: exponent_parsed simp del: dropWhile_eq_Nil_conv)
      have fp: "list_all is_digit ?fp"
        by (auto simp: list_all_iff dest: set_takeWhileD)
      have "cs = ?fp @ ?r2"
        by simp
      with n Cons True have "n = ?ip @ ''.'' @ ?fp @ ?r2"
        by (metis append_Cons append_Nil)
      with ip fp ne ex show ?thesis
        unfolding number_text_def by blast
    next
      case False
      obtain v r3 where pe: "parse_exponent ?r1 = (v, r3)"
        by (cases "parse_exponent ?r1")
      from assms Cons False pe have r3: "r3 = []" and ne: "?ip \<noteq> []"
        by (auto simp: parse_decimal_def Let_def split: if_splits)
      from pe r3 Cons have ex: "exponent_text ?r1"
        by (auto dest: exponent_parsed)
      from ip ne have "digit_text ?ip"
        by (simp add: digit_text_def)
      with n ex show ?thesis
        unfolding number_text_def by blast
    qed
  qed
qed

lemma digits_ends: "ds \<noteq> [] \<Longrightarrow> list_all is_digit ds \<Longrightarrow> is_digit (hd ds) \<and> is_digit (last ds)"
  by (cases ds) (auto simp: list_all_iff)

lemma exponent_last: "exponent_text ex \<Longrightarrow> is_digit (last ex)"
  by (auto simp: exponent_text_def digit_text_def dest: digits_ends)

lemma number_ends:
  assumes "number_text n"
  shows "n \<noteq> [] \<and> (is_digit (hd n) \<or> hd n = CHR ''.'') \<and> (is_digit (last n) \<or> last n = CHR ''.'')"
proof -
  from assms obtain ip fp ex where
    c: "n = ip @ ex \<and> digit_text ip
        \<or> n = ip @ ''.'' @ fp @ ex \<and> list_all is_digit ip \<and> list_all is_digit fp \<and> (ip \<noteq> [] \<or> fp \<noteq> [])"
    and ex: "ex = [] \<or> exponent_text ex"
    by (auto simp: number_text_def)
  from ex have l: "ex \<noteq> [] \<longrightarrow> is_digit (last ex)"
    by (auto dest: exponent_last)
  from c show ?thesis
  proof
    assume a: "n = ip @ ex \<and> digit_text ip"
    then have "ip \<noteq> []" and "is_digit (hd ip)" and "is_digit (last ip)"
      by (auto simp: digit_text_def dest: digits_ends)
    with a l show ?thesis
      by (cases "ex = []") auto
  next
    assume a: "n = ip @ ''.'' @ fp @ ex \<and> list_all is_digit ip \<and> list_all is_digit fp
        \<and> (ip \<noteq> [] \<or> fp \<noteq> [])"
    then have n: "n = ip @ CHR ''.'' # fp @ ex"
      by simp
    have h: "is_digit (hd n) \<or> hd n = CHR ''.''"
    proof (cases "ip = []")
      case True
      with n show ?thesis by simp
    next
      case False
      with a have "is_digit (hd ip)"
        by (auto dest: digits_ends)
      with n False show ?thesis by simp
    qed
    have "is_digit (last n) \<or> last n = CHR ''.''"
    proof (cases "ex = []")
      case False
      with n l show ?thesis by simp
    next
      case True
      show ?thesis
      proof (cases "fp = []")
        case True
        with n \<open>ex = []\<close> show ?thesis by simp
      next
        case False
        with a have "is_digit (last fp)"
          by (auto dest: digits_ends)
        with n False \<open>ex = []\<close> show ?thesis by simp
      qed
    qed
    with h n show ?thesis
      by simp
  qed
qed

lemma inf_or_nan_ends:
  assumes "inf_or_nan_text n"
  shows "n \<noteq> [] \<and> to_lower (hd n) \<in> set ''infinityan'' \<and> to_lower (last n) \<in> set ''infinityan''"
proof -
  from assms have m: "map to_lower n = ''inf'' \<or> map to_lower n = ''infinity'' \<or> map to_lower n = ''nan''"
    by (simp add: inf_or_nan_text_def)
  then have n: "n \<noteq> []"
    by auto
  then have "hd (map to_lower n) = to_lower (hd n)" and "last (map to_lower n) = to_lower (last n)"
    by (simp_all add: hd_map last_map)
  with m n show ?thesis
    by auto
qed

lemma body_ends:
  assumes "number_text n \<or> inf_or_nan_text n"
  shows "n \<noteq> [] \<and> \<not> is_space (hd n) \<and> \<not> is_space (last n)
    \<and> hd n \<noteq> CHR ''+'' \<and> hd n \<noteq> CHR ''-''"
  using assms
proof
  assume "number_text n"
  from number_ends [OF this] show ?thesis
    by (auto simp: not_space_simps dest: digit_not_special)
next
  assume "inf_or_nan_text n"
  from inf_or_nan_ends [OF this] show ?thesis
    using to_lower_letter [of "hd n"] to_lower_letter [of "last n"] by blast
qed

lemma plain_form_accepted:
  assumes "plain_float_form t"
  shows "\<exists>x. float_from_string_inner t = Inr x"
proof -
  from assms obtain a sg n b where t: "t = a @ sg @ n @ b"
    and a: "list_all is_space a" and b: "list_all is_space b"
    and sg: "sign_text sg" and n: "number_text n \<or> inf_or_nan_text n"
    by (auto simp: plain_float_form_def)
  from body_ends [OF n] have e: "n \<noteq> []" "\<not> is_space (hd n)" "\<not> is_space (last n)"
    "hd n \<noteq> CHR ''+''" "hd n \<noteq> CHR ''-''"
    by simp_all
  from sg e have m: "sg @ n \<noteq> []" "\<not> is_space (hd (sg @ n))" "\<not> is_space (last (sg @ n))"
    by (auto simp: sign_text_def not_space_simps)
  from strip_exact [OF a b m] t have s: "strip t = sg @ n"
    by simp
  from parse_sign_exact [OF sg, of n] e obtain neg where p: "parse_sign (sg @ n) = (neg, n)"
    by blast
  show ?thesis
  proof (cases "parse_decimal n")
    case (Some me)
    then show ?thesis
      by (cases me) (simp add: float_from_string_inner_def s p)
  next
    case None
    with n have "inf_or_nan_text n"
      by (auto dest: number_accepted)
    then have "\<exists>x. parse_inf_or_nan neg n = Some x"
      by (auto simp: inf_or_nan_text_def parse_inf_or_nan_def)
    with None show ?thesis
      by (auto simp: float_from_string_inner_def s p)
  qed
qed

lemma accepted_plain_form:
  assumes "float_from_string_inner t = Inr x"
  shows "plain_float_form t"
proof -
  obtain neg u where p: "parse_sign (strip t) = (neg, u)"
    by (cases "parse_sign (strip t)")
  from assms p have "(\<exists>me. parse_decimal u = Some me) \<or> (\<exists>y. parse_inf_or_nan neg u = Some y)"
    by (auto simp: float_from_string_inner_def split: option.splits)
  then have n: "number_text u \<or> inf_or_nan_text u"
    by (auto dest: number_parsed simp: parse_inf_or_nan_def inf_or_nan_text_def Let_def
        split: if_splits)
  from parse_sign_text [OF p] obtain sg where s: "strip t = sg @ u" and sg: "sign_text sg"
    by blast
  from strip_decomp [of t] obtain a b where "t = a @ strip t @ b"
    and "\<forall>c\<in>set a. is_space c" and "\<forall>c\<in>set b. is_space c"
    by blast
  with s have "t = a @ sg @ u @ b" and "list_all is_space a" and "list_all is_space b"
    by (simp_all add: list_all_iff)
  with sg n show ?thesis
    unfolding plain_float_form_def by blast
qed

lemma py_float_accepts_iff: "(\<exists>x. py_float s = Inr x) \<longleftrightarrow> float_form s"
proof
  assume "\<exists>x. py_float s = Inr x"
  then obtain x t where c: "check_underscores (CHR 0x00) s = Some t"
    and f: "float_from_string_inner t = Inr x"
    by (auto simp: py_float_def split: option.splits)
  from c have "underscores_between_digits s" and "t = filter (\<lambda>c. c \<noteq> CHR ''_'') s"
    by (simp_all add: check_underscores_iff)
  with accepted_plain_form [OF f] show "float_form s"
    by (simp add: float_form_def)
next
  assume "float_form s"
  then have u: "underscores_between_digits s"
    and p: "plain_float_form (filter (\<lambda>c. c \<noteq> CHR ''_'') s)"
    by (simp_all add: float_form_def)
  from u have "check_underscores (CHR 0x00) s = Some (filter (\<lambda>c. c \<noteq> CHR ''_'') s)"
    by (simp add: check_underscores_iff)
  with plain_form_accepted [OF p] show "\<exists>x. py_float s = Inr x"
    by (simp add: py_float_def)
qed

lemma py_float_rejects_iff: "py_float s = Inl ValueError \<longleftrightarrow> \<not> float_form s"
proof -
  have "py_float s = Inl ValueError \<longleftrightarrow> \<not> (\<exists>x. py_float s = Inr x)"
    by (cases "py_float s") (auto dest: py_float_error)
  then show ?thesis
    by (simp add: py_float_accepts_iff)
qed

text \<open>
  C5, as the code has it. The parse step is Python's \<^verbatim>\<open>float\<close>. For ASCII text it
  accepts exactly the strings of \<open>float_form\<close>: every underscore stands between two
  digits, and without the underscores the text is optional white space at both ends,
  an optional sign, and either digits with at most one decimal point, at least one
  digit and an optional exponent, or one of the words \<^verbatim>\<open>inf\<close>, \<^verbatim>\<open>infinity\<close>,
  \<^verbatim>\<open>nan\<close> in any letter case. Every other string is rejected with
  \<^verbatim>\<open>ValueError\<close>. So every decimal form of the specification is accepted, and
  exponents, underscores between digits and the three words are accepted besides;
  the empty string, white space alone, a string with two or more decimal points and
  any other text are rejected.
\<close>

theorem float_accepts_and_rejects:
  assumes "is_ascii s"
  shows "((\<exists>x. py_float s = Inr x) \<longleftrightarrow> float_form s)
    \<and> (py_float s = Inl ValueError \<longleftrightarrow> \<not> float_form s)
    \<and> (spec_decimal_form s \<longrightarrow> float_form s)
    \<and> ((\<forall>c\<in>set s. is_space c) \<longrightarrow> \<not> float_form s)
    \<and> (2 \<le> count_list s (CHR ''.'') \<longrightarrow> \<not> float_form s)"
proof -
  have "float_form s" if "spec_decimal_form s"
    using spec_decimal_form_accepted [OF that] by (simp add: py_float_accepts_iff)
  moreover have "\<not> float_form s" if "\<forall>c\<in>set s. is_space c"
    using py_float_all_space [OF that] by (simp add: py_float_rejects_iff)
  moreover have "\<not> float_form s" if "2 \<le> count_list s (CHR ''.'')"
  proof
    assume "float_form s"
    then obtain x where "py_float s = Inr x"
      using py_float_accepts_iff [of s] by blast
    from py_float_dots [OF this] that show False
      by simp
  qed
  ultimately show ?thesis
    using py_float_accepts_iff [of s] py_float_rejects_iff [of s] by blast
qed

theorem float_accepts_and_rejects_witness:
  "is_ascii '' -12.5 '' \<and> spec_decimal_form '' -12.5 '' \<and> float_form '' -12.5 ''
   \<and> py_float '' -12.5 '' = Inr (Finite (- (25 / 2)))
   \<and> is_ascii ''1_0e1'' \<and> float_form ''1_0e1'' \<and> py_float ''1_0e1'' = Inr (Finite 100)
   \<and> is_ascii ''12abc'' \<and> \<not> float_form ''12abc'' \<and> py_float ''12abc'' = Inl ValueError
   \<and> is_ascii ''45,5'' \<and> \<not> float_form ''45,5''
   \<and> is_ascii ''0x10'' \<and> \<not> float_form ''0x10''
   \<and> is_ascii ''hello'' \<and> \<not> float_form ''hello''
   \<and> is_ascii [] \<and> \<not> float_form []
   \<and> is_ascii '' '' \<and> list_all is_space '' '' \<and> \<not> float_form '' ''
   \<and> is_ascii ''1.2.3'' \<and> 2 \<le> count_list ''1.2.3'' (CHR ''.'') \<and> \<not> float_form ''1.2.3''"
proof -
  have a: "is_ascii '' -12.5 ''" "is_ascii ''1_0e1''" "is_ascii ''12abc''" "is_ascii ''45,5''"
    "is_ascii ''0x10''" "is_ascii ''hello''" "is_ascii []" "is_ascii '' ''" "is_ascii ''1.2.3''"
    by code_simp+
  have h1: "spec_decimal_form '' -12.5 ''"
    by code_simp
  have v1: "py_float '' -12.5 '' = Inr (Finite (- (25 / 2)))"
    by code_simp
  have v2: "py_float ''1_0e1'' = Inr (Finite 100)"
    by code_simp
  have v3: "py_float ''12abc'' = Inl ValueError"
    by code_simp
  have v4: "py_float ''45,5'' = Inl ValueError"
    by code_simp
  have v5: "py_float ''0x10'' = Inl ValueError"
    by code_simp
  have v6: "py_float ''hello'' = Inl ValueError"
    by code_simp
  have h8: "\<forall>c\<in>set '' ''. is_space c"
    by (simp add: is_space_def)
  have h7: "\<forall>c\<in>set ([] :: string). is_space c"
    by simp
  have h9: "2 \<le> count_list ''1.2.3'' (CHR ''.'')"
    by simp
  from float_accepts_and_rejects [OF a(1)] h1 have c1: "float_form '' -12.5 ''"
    by blast
  from float_accepts_and_rejects [OF a(2)] v2 have c2: "float_form ''1_0e1''"
    by blast
  from float_accepts_and_rejects [OF a(3)] v3 have c3: "\<not> float_form ''12abc''"
    by blast
  from float_accepts_and_rejects [OF a(4)] v4 have c4: "\<not> float_form ''45,5''"
    by blast
  from float_accepts_and_rejects [OF a(5)] v5 have c5: "\<not> float_form ''0x10''"
    by blast
  from float_accepts_and_rejects [OF a(6)] v6 have c6: "\<not> float_form ''hello''"
    by blast
  from float_accepts_and_rejects [OF a(7)] h7 have c7: "\<not> float_form []"
    by blast
  from float_accepts_and_rejects [OF a(8)] h8 have c8: "\<not> float_form '' ''"
    by blast
  from float_accepts_and_rejects [OF a(9)] h9 have c9: "\<not> float_form ''1.2.3''"
    by blast
  from a h1 v1 v2 v3 h8 h9 c1 c2 c3 c4 c5 c6 c7 c8 c9 show ?thesis
    by (simp add: list_all_iff)
qed

text \<open>
  Strings that are none of the specification's decimal forms and that \<^verbatim>\<open>float\<close>
  accepts: an exponent, an underscore, a NaN and an infinity.
\<close>

theorem float_accepts_other_forms:
  "\<not> spec_decimal_form ''1e5'' \<and> py_float ''1e5'' = Inr (Finite 100000)
   \<and> \<not> spec_decimal_form ''1_0'' \<and> py_float ''1_0'' = Inr (Finite 10)
   \<and> \<not> spec_decimal_form ''nan'' \<and> py_float ''nan'' = Inr NaN
   \<and> \<not> spec_decimal_form ''-Infinity'' \<and> py_float ''-Infinity'' = Inr NegInf"
  by code_simp

end
